theory Spec2Isabelle
  imports Complex_Main "HOL-Library.Log_Nat"
begin

section \<open>JavaScript values\<close>

text \<open>
  The engine of \<^verbatim>\<open>src/solver.js\<close> (class \<^verbatim>\<open>NPSolver\<close>) computes with IEEE doubles.
  A finite double is modelled by the real number it denotes and every operation by the exact
  operation on reals; \<open>NaN\<close>, which the code produces when it reads a missing array entry
  (\<^verbatim>\<open>undefined * x\<close>), is a value of its own and propagates as in JavaScript. Rounding to
  a double is modelled by \<open>to_double\<close> in the scores of the Satisfaction strategy and in the
  count of the Collapser, where a rounded value decides an assignment or a length; elsewhere
  the operations are exact. Overflow is not modelled. Thrown exceptions are values of
  \<open>js_error\<close>.
\<close>

datatype jsnum = NaN | Fin real

datatype js_error = RangeError | Error string

fun js_add :: "jsnum \<Rightarrow> jsnum \<Rightarrow> jsnum" where
  "js_add (Fin x) (Fin y) = Fin (x + y)"
| "js_add _ _ = NaN"

fun js_sub :: "jsnum \<Rightarrow> jsnum \<Rightarrow> jsnum" where
  "js_sub (Fin x) (Fin y) = Fin (x - y)"
| "js_sub _ _ = NaN"

fun js_mul :: "jsnum \<Rightarrow> jsnum \<Rightarrow> jsnum" where
  "js_mul (Fin x) (Fin y) = Fin (x * y)"
| "js_mul _ _ = NaN"

text \<open>\<^verbatim>\<open>x / y\<close> for a divisor the code has checked, or knows, to be non-zero.\<close>

fun js_div :: "jsnum \<Rightarrow> jsnum \<Rightarrow> jsnum" where
  "js_div (Fin x) (Fin y) = (if y = 0 then NaN else Fin (x / y))"
| "js_div _ _ = NaN"

fun js_abs :: "jsnum \<Rightarrow> jsnum" where
  "js_abs (Fin x) = Fin \<bar>x\<bar>"
| "js_abs NaN = NaN"

fun js_sqrt :: "jsnum \<Rightarrow> jsnum" where
  "js_sqrt (Fin x) = (if x < 0 then NaN else Fin (sqrt x))"
| "js_sqrt NaN = NaN"

text \<open>\<^verbatim>\<open>x % 1\<close>: the remainder has the sign of the dividend (truncated division).\<close>

definition rem1 :: "real \<Rightarrow> real" where
  "rem1 x = x - of_int (if 0 \<le> x then \<lfloor>x\<rfloor> else \<lceil>x\<rceil>)"

fun js_rem1 :: "jsnum \<Rightarrow> jsnum" where
  "js_rem1 (Fin x) = Fin (rem1 x)"
| "js_rem1 NaN = NaN"

text \<open>Comparisons with \<open>NaN\<close> are false.\<close>

fun js_lt :: "jsnum \<Rightarrow> jsnum \<Rightarrow> bool" where
  "js_lt (Fin x) (Fin y) = (x < y)"
| "js_lt _ _ = False"

fun js_gt :: "jsnum \<Rightarrow> jsnum \<Rightarrow> bool" where
  "js_gt (Fin x) (Fin y) = (x > y)"
| "js_gt _ _ = False"

text \<open>\<^verbatim>\<open>Math.max(0, Math.min(1, x))\<close>; \<open>NaN\<close> stays \<open>NaN\<close>.\<close>

fun js_clamp01 :: "jsnum \<Rightarrow> jsnum" where
  "js_clamp01 (Fin x) = Fin (max 0 (min 1 x))"
| "js_clamp01 NaN = NaN"

text \<open>Reading \<^verbatim>\<open>xs[i]\<close> as a number: a missing entry is \<^verbatim>\<open>undefined\<close>, hence \<open>NaN\<close>.\<close>

definition js_nth :: "jsnum list \<Rightarrow> nat \<Rightarrow> jsnum" where
  "js_nth xs i = (if i < length xs then xs ! i else NaN)"

definition is_fin :: "jsnum \<Rightarrow> bool" where
  "is_fin x = (case x of Fin _ \<Rightarrow> True | NaN \<Rightarrow> False)"

text \<open>The real number of a finite value (0 for \<open>NaN\<close>, which no statement below relies on).\<close>

definition fin_val :: "jsnum \<Rightarrow> real" where
  "fin_val x = (case x of Fin r \<Rightarrow> r | NaN \<Rightarrow> 0)"

text \<open>
  \<open>to_double x\<close> is the double nearest to the real \<open>x\<close>: 53 significant bits, ties
  to the even significand, gradual underflow below \<open>2\<^sup>-\<^sup>1\<^sup>0\<^sup>2\<^sup>2\<close>; overflow to \<open>Infinity\<close> is not
  modelled.
\<close>

definition round_even :: "real \<Rightarrow> int" where
  "round_even y =
     (let f = \<lfloor>y\<rfloor>; d = y - of_int f
      in if d < 1 / 2 then f else if 1 / 2 < d then f + 1 else if even f then f else f + 1)"

definition to_double :: "real \<Rightarrow> real" where
  "to_double x =
     (if x = 0 then 0
      else (let e = max \<lfloor>log 2 \<bar>x\<bar>\<rfloor> (- 1022);
                q = 2 powr (of_int e - 52)
            in sgn x * (q * of_int (round_even (\<bar>x\<bar> / q)))))"

fun js_round :: "jsnum \<Rightarrow> jsnum" where
  "js_round (Fin x) = Fin (to_double x)"
| "js_round NaN = NaN"

text \<open>
  \<^verbatim>\<open>Array.prototype.sort(cmp)\<close> is stable. It is modelled by stable insertion: an element
  moves behind another one only where \<^verbatim>\<open>cmp\<close> is positive; a \<open>NaN\<close> result counts as
  \<open>0\<close>. For a comparator that is a total preorder every stable sort gives this result; for
  an inconsistent one (some keys \<open>NaN\<close>) ECMAScript leaves the order to the implementation
  and the model fixes this one.
\<close>

fun js_insert :: "('a \<Rightarrow> 'a \<Rightarrow> jsnum) \<Rightarrow> 'a \<Rightarrow> 'a list \<Rightarrow> 'a list" where
  "js_insert cmp x [] = [x]"
| "js_insert cmp x (y # ys) =
     (if js_gt (cmp x y) (Fin 0) then y # js_insert cmp x ys else x # y # ys)"

definition js_sort :: "('a \<Rightarrow> 'a \<Rightarrow> jsnum) \<Rightarrow> 'a list \<Rightarrow> 'a list" where
  "js_sort cmp xs = foldr (js_insert cmp) xs []"

subsection \<open>Strings\<close>

text \<open>
  Number to string for integers (\<^verbatim>\<open>`${n}`\<close>): decimal digits, with a leading minus sign
  for a negative number (exact for \<open>\<bar>n\<bar> < 10\<^sup>2\<^sup>1\<close>, beyond which JavaScript switches to
  exponent notation).
\<close>

definition digit_char :: "nat \<Rightarrow> char" where
  "digit_char d = ''0123456789'' ! d"

fun show_nat :: "nat \<Rightarrow> string" where
  "show_nat n = (if n < 10 then [digit_char n] else show_nat (n div 10) @ [digit_char (n mod 10)])"

declare show_nat.simps [simp del]

definition show_int :: "int \<Rightarrow> string" where
  "show_int i = (if i < 0 then CHR ''-'' # show_nat (nat (- i)) else show_nat (nat i))"

text \<open>\<^verbatim>\<open>s.split('-')\<close>: all pieces between the separators, empty ones included.\<close>

fun split_dash :: "string \<Rightarrow> string list" where
  "split_dash [] = [[]]"
| "split_dash (c # cs) =
     (if c = CHR ''-'' then [] # split_dash cs
      else (case split_dash cs of p # ps \<Rightarrow> (c # p) # ps | [] \<Rightarrow> [[c]]))"

text \<open>
  \<^verbatim>\<open>parseInt(s, 10)\<close>: leading blanks, an optional sign, then the longest run of decimal
  digits; \<open>None\<close> is \<open>NaN\<close> (no digit).
\<close>

definition is_digit :: "char \<Rightarrow> bool" where
  "is_digit c = (c \<in> set ''0123456789'')"

definition digit_value :: "char \<Rightarrow> nat" where
  "digit_value c = length (takeWhile (\<lambda>d. d \<noteq> c) ''0123456789'')"

definition digits_value :: "string \<Rightarrow> nat" where
  "digits_value ds = foldl (\<lambda>acc c. 10 * acc + digit_value c) 0 ds"

definition parse_digits :: "string \<Rightarrow> nat option" where
  "parse_digits s =
     (let ds = takeWhile is_digit s in if ds = [] then None else Some (digits_value ds))"

definition parseInt10 :: "string \<Rightarrow> int option" where
  "parseInt10 s =
     (case dropWhile (\<lambda>c. c = CHR '' '' \<or> c = CHR 0x09 \<or> c = CHR 0x0A \<or> c = CHR 0x0D) s of
        [] \<Rightarrow> None
      | c # cs \<Rightarrow>
          if c = CHR ''-'' then map_option (\<lambda>n. - int n) (parse_digits cs)
          else if c = CHR ''+'' then map_option int (parse_digits cs)
          else map_option int (parse_digits (c # cs)))"

section \<open>Data model\<close>

text \<open>
  A constraint object as \<^verbatim>\<open>_applyConstraint\<close> reads it: the fields \<^verbatim>\<open>min\<close>, \<^verbatim>\<open>max\<close>,
  \<^verbatim>\<open>discrete\<close>, \<^verbatim>\<open>options\<close> and \<^verbatim>\<open>count\<close>, each possibly absent.
\<close>

record constraint =
  cmin :: "real option"
  cmax :: "real option"
  discrete :: bool
  coptions :: "real list option"
  ccount :: "real option"

text \<open>
  A problem instance is one JavaScript object; the record has the fields the engine reads.
  \<open>psize\<close> is \<^verbatim>\<open>problem.size\<close> (an integer in every instance the generators build),
  \<open>dimensions\<close> is \<open>None\<close> when the property is absent, \<open>constraints\<close> is the empty list
  when it is absent, and an entry of it is \<open>None\<close> when it is missing or falsy.
\<close>

record problem =
  ptype :: string
  psize :: int
  dimensions :: "int option"
  constraints :: "constraint option list"
  cities :: "(real \<times> real) list"
  graph :: "int list list"
  maxColors :: nat
  variables :: nat
  clauses :: "int list list"
  numbers :: "real list"
  target :: real

record space =
  sdimensions :: int
  ssize :: int
  sconstraints :: "constraint option list"
  vectors :: "jsnum list list"

record projection =
  coordinates :: "jsnum list"
  pvalue :: jsnum

record correlation_entry =
  cdimensions :: "nat \<times> nat"
  correlation :: jsnum

record pattern =
  primaryDimensions :: "(nat \<times> nat) list"
  correlationStrengths :: "jsnum list"
  vectorProjections :: "projection list"

text \<open>The fields of an \<^verbatim>\<open>NPSolver\<close> instance that change; \<^verbatim>\<open>PHI\<close> and \<^verbatim>\<open>DIMENSIONS\<close> never do.\<close>

record engine =
  tickStack :: "jsnum list list"
  patternCache :: "string \<rightharpoonup> pattern"
  driftState :: real
  cycleCount :: nat

definition PHI :: real where
  "PHI = 1.618033988749895"

definition DIMENSIONS :: nat where
  "DIMENSIONS = 11"

definition new_engine :: engine where
  "new_engine = \<lparr>tickStack = replicate DIMENSIONS [], patternCache = Map.empty,
                  driftState = 0, cycleCount = 0\<rparr>"

section \<open>VectorSampler\<close>

text \<open>\<^verbatim>\<open>problem.dimensions || this.DIMENSIONS\<close>: an absent or zero count falls back to 11.\<close>

definition effectiveDimensions :: "problem \<Rightarrow> int" where
  "effectiveDimensions problem =
     (case dimensions problem of
        None \<Rightarrow> int DIMENSIONS
      | Some d \<Rightarrow> if d = 0 then int DIMENSIONS else d)"

definition constraint_at :: "problem \<Rightarrow> nat \<Rightarrow> constraint option" where
  "constraint_at problem i =
     (if i < length (constraints problem) then constraints problem ! i else None)"

definition applyConstraint :: "real \<Rightarrow> constraint \<Rightarrow> jsnum" where
  "applyConstraint v c =
     (case (cmin c, cmax c) of
        (Some lo, Some hi) \<Rightarrow> Fin (lo + v * (hi - lo))
      | _ \<Rightarrow>
          if discrete c then
            (case coptions c of
               Some opts \<Rightarrow>
                 (let index = \<lfloor>v * real (length opts)\<rfloor>
                  in if 0 \<le> index \<and> nat index < length opts then Fin (opts ! nat index) else NaN)
             | None \<Rightarrow>
                 (case ccount c of
                    Some n \<Rightarrow> Fin (of_int \<lfloor>v * n\<rfloor>)
                  | None \<Rightarrow> NaN))
          else Fin v)"

text \<open>
  \<^verbatim>\<open>new Float64Array(n)\<close> throws a \<^verbatim>\<open>RangeError\<close> for a negative length; nothing in the
  engine catches it.
\<close>

definition generateSolutionVector :: "problem \<Rightarrow> nat \<Rightarrow> js_error + jsnum list" where
  "generateSolutionVector problem seed =
     (let d = effectiveDimensions problem in
      if d < 0 then Inl RangeError
      else
        (let phaseFactor = rem1 (real seed * PHI)
         in Inr (map (\<lambda>i. let phase = rem1 (real (i + 1) * phaseFactor * PHI)
                           in (case constraint_at problem i of
                                 Some c \<Rightarrow> applyConstraint phase c
                               | None \<Rightarrow> Fin phase))
                     [0..<nat d])))"

text \<open>
  The loop bound \<^verbatim>\<open>Math.ceil(Math.log2(problem.size) * this.PHI)\<close>. For a size below 1 the
  logarithm is \<open>-Infinity\<close> or \<open>NaN\<close>, \<^verbatim>\<open>i < vectorCount\<close> is false at once and the loop body
  never runs.
\<close>

definition vectorCount :: "problem \<Rightarrow> nat" where
  "vectorCount problem =
     (if psize problem \<le> 0 then 0 else nat \<lceil>log 2 (real_of_int (psize problem)) * PHI\<rceil>)"

fun generateVectors :: "problem \<Rightarrow> nat list \<Rightarrow> js_error + jsnum list list" where
  "generateVectors problem [] = Inr []"
| "generateVectors problem (i # rest) =
     (case generateSolutionVector problem i of
        Inl e \<Rightarrow> Inl e
      | Inr v \<Rightarrow>
          (case generateVectors problem rest of
             Inl e \<Rightarrow> Inl e
           | Inr vs \<Rightarrow> Inr (v # vs)))"

definition initializeSolutionSpace :: "problem \<Rightarrow> js_error + space" where
  "initializeSolutionSpace problem =
     (case generateVectors problem [0..<vectorCount problem] of
        Inl e \<Rightarrow> Inl e
      | Inr vs \<Rightarrow>
          Inr \<lparr>sdimensions = effectiveDimensions problem, ssize = psize problem,
               sconstraints = constraints problem, vectors = vs\<rparr>)"

section \<open>DriftTransformer and DimensionHistory\<close>

text \<open>
  \<^verbatim>\<open>_calculateDriftFactor\<close> is only called for a vector of the space, and a space has
  vectors only when the size is at least 2, where \<open>1 + log\<^sub>1\<^sub>0 size\<close> is positive.
\<close>

definition calculateDriftFactor :: "problem \<Rightarrow> nat \<Rightarrow> nat \<Rightarrow> real" where
  "calculateDriftFactor problem vectorIndex dimensionIndex =
     (let base = rem1 (real vectorIndex * PHI + real dimensionIndex);
          sizeFactor = 1 / (1 + log 10 (real_of_int (psize problem)))
      in base * sizeFactor * 0.2)"

text \<open>One window: \<^verbatim>\<open>push\<close>, then \<^verbatim>\<open>shift\<close> when more than 100 values are held.\<close>

definition push_window :: "'a list \<Rightarrow> 'a \<Rightarrow> 'a list" where
  "push_window w x = (let w' = w @ [x] in if length w' > 100 then tl w' else w')"

definition pushToTickStack :: "engine \<Rightarrow> jsnum list \<Rightarrow> engine" where
  "pushToTickStack st vector =
     st\<lparr>tickStack :=
          foldl (\<lambda>ts i. ts[i := push_window (ts ! i) (vector ! i)])
                (tickStack st) [0..<min (length vector) DIMENSIONS]\<rparr>"

definition driftVector :: "real \<Rightarrow> problem \<Rightarrow> nat \<Rightarrow> jsnum list \<Rightarrow> jsnum list" where
  "driftVector ds problem i vector =
     map (\<lambda>j. js_clamp01
                 (js_add (vector ! j)
                    (js_mul (js_mul (vector ! j) (Fin (calculateDriftFactor problem i j))) (Fin ds))))
         [0..<length vector]"

fun driftVectors :: "problem \<Rightarrow> nat \<Rightarrow> jsnum list list \<Rightarrow> engine \<Rightarrow> jsnum list list \<times> engine" where
  "driftVectors problem i [] st = ([], st)"
| "driftVectors problem i (vector # rest) st =
     (let driftedVector = driftVector (driftState st) problem i vector;
          st' = pushToTickStack st driftedVector;
          (ds, st'') = driftVectors problem (i + 1) rest st'
      in (driftedVector # ds, st''))"

definition applyQuantumDrift :: "engine \<Rightarrow> space \<Rightarrow> problem \<Rightarrow> space \<times> engine" where
  "applyQuantumDrift st space problem =
     (let st1 = st\<lparr>cycleCount := cycleCount st + 1\<rparr>;
          st2 = st1\<lparr>driftState := sin (real (cycleCount st1) * PHI) * 0.1\<rparr>;
          (ds, st3) = driftVectors problem 0 (vectors space) st2
      in (space\<lparr>vectors := ds\<rparr>, st3))"

section \<open>CorrelationAnalyzer, Projector and PatternCache\<close>

text \<open>\<^verbatim>\<open>xs.slice(-n)\<close>: the last \<open>n\<close> elements.\<close>

definition lastN :: "nat \<Rightarrow> 'a list \<Rightarrow> 'a list" where
  "lastN n xs = drop (length xs - n) xs"

definition js_sum :: "jsnum list \<Rightarrow> jsnum" where
  "js_sum xs = foldl js_add (Fin 0) xs"

definition calculateCorrelation :: "jsnum list \<Rightarrow> jsnum list \<Rightarrow> jsnum" where
  "calculateCorrelation series1 series2 =
     (if length series1 \<noteq> length series2 \<or> length series1 = 0 then Fin 0
      else
        (let n = Fin (real (length series1));
             sum1 = js_sum series1;
             sum2 = js_sum series2;
             sum1Sq = js_sum (map (\<lambda>x. js_mul x x) series1);
             sum2Sq = js_sum (map (\<lambda>x. js_mul x x) series2);
             pSum = js_sum (map2 js_mul series1 series2);
             num = js_sub pSum (js_div (js_mul sum1 sum2) n);
             den = js_sqrt (js_mul (js_sub sum1Sq (js_div (js_mul sum1 sum1) n))
                                   (js_sub sum2Sq (js_div (js_mul sum2 sum2) n)))
         in if den = Fin 0 then Fin 0 else js_div num den))"

text \<open>The engine keeps exactly \<open>DIMENSIONS\<close> windows, so \<^verbatim>\<open>this.tickStack[i]\<close> exists.\<close>

definition calculateDimensionalCorrelations :: "engine \<Rightarrow> correlation_entry list" where
  "calculateDimensionalCorrelations st =
     concat (map (\<lambda>i. concat (map (\<lambda>j.
       (let dim1 = tickStack st ! i; dim2 = tickStack st ! j
        in if length dim1 > 10 \<and> length dim2 > 10
           then [\<lparr>cdimensions = (i, j),
                  correlation = calculateCorrelation (lastN 10 dim1) (lastN 10 dim2)\<rparr>]
           else []))
       [i + 1..<DIMENSIONS])) [0..<DIMENSIONS - 1])"

definition projectVectorOntoPatternSpace :: "jsnum list \<Rightarrow> pattern \<Rightarrow> projection" where
  "projectVectorOntoPatternSpace vector patterns =
     foldl (\<lambda>projection i.
              (let (dim1, dim2) = primaryDimensions patterns ! i;
                   strength = js_abs (js_nth (correlationStrengths patterns) i);
                   coord = js_mul (js_div (js_add (js_nth vector dim1) (js_nth vector dim2)) (Fin 2))
                                  strength
               in \<lparr>coordinates = coordinates projection @ [coord],
                   pvalue = js_add (pvalue projection) (js_mul coord (Fin (PHI ^ i)))\<rparr>))
           \<lparr>coordinates = [], pvalue = Fin 0\<rparr>
           [0..<length (primaryDimensions patterns)]"

definition generateProblemKey :: "problem \<Rightarrow> string" where
  "generateProblemKey problem =
     ptype problem @ ''-'' @ show_int (psize problem) @ ''-'' @
     show_int (effectiveDimensions problem)"

text \<open>
  \<^verbatim>\<open>_isPatternValid\<close> rebuilds the key from the problem it is given (not from the cached
  pattern, which it never reads), splits it at every \<^verbatim>\<open>-\<close> and compares the first two
  pieces with the problem. \<open>x / 0\<close> is \<open>NaN\<close> or \<open>Infinity\<close>, never below \<open>0.2\<close>.
\<close>

definition isPatternValid :: "pattern \<Rightarrow> problem \<Rightarrow> bool" where
  "isPatternValid cached problem =
     (case split_dash (generateProblemKey problem) of
        cachedType # cachedSizeStr # _ \<Rightarrow>
          (case parseInt10 cachedSizeStr of
             None \<Rightarrow> False
           | Some cachedSize \<Rightarrow>
               cachedType = ptype problem \<and> psize problem \<noteq> 0 \<and>
               \<bar>real_of_int cachedSize - real_of_int (psize problem)\<bar> / real_of_int (psize problem)
                 < 0.2)
      | _ \<Rightarrow> False)"

text \<open>Lines 178 to 185 of \<^verbatim>\<open>_extractPatterns\<close>: the cache lookup.\<close>

definition lookupPattern :: "engine \<Rightarrow> problem \<Rightarrow> pattern option" where
  "lookupPattern st problem =
     (case patternCache st (generateProblemKey problem) of
        None \<Rightarrow> None
      | Some cachedPattern \<Rightarrow>
          if isPatternValid cachedPattern problem then Some cachedPattern else None)"

text \<open>Lines 187 to 204: the correlation analysis and the projection of every vector.\<close>

definition computePatterns :: "engine \<Rightarrow> space \<Rightarrow> pattern" where
  "computePatterns st space =
     (let correlations =
            js_sort (\<lambda>a b. js_sub (js_abs (correlation b)) (js_abs (correlation a)))
                    (calculateDimensionalCorrelations st);
          patterns = \<lparr>primaryDimensions = map cdimensions (take 3 correlations),
                      correlationStrengths = map correlation (take 3 correlations),
                      vectorProjections = []\<rparr>
      in patterns\<lparr>vectorProjections :=
                    map (\<lambda>vector. projectVectorOntoPatternSpace vector patterns) (vectors space)\<rparr>)"

definition extractPatterns :: "engine \<Rightarrow> space \<Rightarrow> problem \<Rightarrow> pattern \<times> engine" where
  "extractPatterns st space problem =
     (case lookupPattern st problem of
        Some cachedPattern \<Rightarrow> (cachedPattern, st)
      | None \<Rightarrow>
          (let patterns = computePatterns st space
           in (patterns,
               st\<lparr>patternCache := (patternCache st)(generateProblemKey problem \<mapsto> patterns)\<rparr>)))"

section \<open>Collapser\<close>

text \<open>
  Lines 307 to 312 of \<^verbatim>\<open>_collapseSolution\<close>: the sorted copy and
  \<^verbatim>\<open>slice(0, Math.ceil(Math.log2(problem.size)))\<close>. For a size below 1 the end index is
  \<open>-Infinity\<close> or \<open>NaN\<close> and the slice is empty. \<^verbatim>\<open>Math.log2\<close> returns a double: the
  model takes the one nearest to the exact logarithm, so that a size just above a power of two
  can have the logarithm of that power (size \<open>2\<^sup>4\<^sup>9 + 1\<close> gives 49).
\<close>

definition topCount :: "problem \<Rightarrow> nat" where
  "topCount problem =
     (if psize problem \<le> 0 then 0
      else nat \<lceil>to_double (log 2 (real_of_int (psize problem)))\<rceil>)"

definition topProjections :: "pattern \<Rightarrow> problem \<Rightarrow> projection list" where
  "topProjections patterns problem =
     (let sortedProjections =
            js_sort (\<lambda>a b. js_sub (pvalue b) (pvalue a)) (vectorProjections patterns)
      in take (topCount problem) sortedProjections)"

section \<open>HeuristicStrategy variants\<close>

record tour_result =
  path :: "nat list"
  distance :: real

text \<open>\<open>colorCount\<close> is \<open>None\<close> for \<open>-Infinity\<close> (\<^verbatim>\<open>Math.max()\<close> of no argument, plus one).\<close>

record coloring_result =
  coloring :: "int list"
  colorCount :: "int option"

record sat_result =
  assignment :: "bool list"
  satisfied :: bool

record subset_result =
  selectedIndices :: "nat list"
  ssum :: real
  starget :: real
  difference :: real

datatype solution =
    TourSolution tour_result
  | ColoringSolution coloring_result
  | SatSolution sat_result
  | SubsetSolution subset_result

definition calculateDistance :: "real \<times> real \<Rightarrow> real \<times> real \<Rightarrow> real" where
  "calculateDistance point1 point2 =
     (let dx = fst point1 - fst point2; dy = snd point1 - snd point2
      in sqrt (dx * dx + dy * dy))"

definition solveTSP :: "projection list \<Rightarrow> problem \<Rightarrow> tour_result" where
  "solveTSP projections problem =
     (let n = length (cities problem);
          cityOrder = [0..<n];
          orderValues =
            map (\<lambda>(city, i).
                   (city,
                    foldl (\<lambda>v proj.
                             js_add v
                               (js_rem1
                                  (js_add (js_mul (js_nth (coordinates proj) 0) (Fin (real (i + 1))))
                                          (js_mul (js_nth (coordinates proj) 1) (Fin (real city))))))
                          (Fin 0) projections))
                (zip cityOrder [0..<n]);
          cityOrder' = map fst (js_sort (\<lambda>a b. js_sub (snd a) (snd b)) orderValues);
          totalDistance =
            foldl (\<lambda>d i. d + calculateDistance (cities problem ! (cityOrder' ! i))
                                                 (cities problem ! (cityOrder' ! ((i + 1) mod n))))
                  0 [0..<n]
      in \<lparr>path = cityOrder', distance = totalDistance\<rparr>)"

text \<open>\<^verbatim>\<open>graph[i][j] === 1\<close>; a missing entry is \<^verbatim>\<open>undefined\<close> and not equal to 1.\<close>

definition graph_edge :: "int list list \<Rightarrow> nat \<Rightarrow> nat \<Rightarrow> bool" where
  "graph_edge g i j = (i < length g \<and> j < length (g ! i) \<and> g ! i ! j = 1)"

text \<open>
  \<^verbatim>\<open>Math.min(...xs)\<close>: \<open>Infinity\<close> for no argument (\<open>None\<close> here), \<open>NaN\<close> as soon as one
  argument is \<open>NaN\<close>.
\<close>

fun js_min :: "jsnum list \<Rightarrow> jsnum option" where
  "js_min [] = None"
| "js_min (x # xs) =
     (case js_min xs of
        None \<Rightarrow> Some x
      | Some m \<Rightarrow> Some (case (x, m) of (Fin a, Fin b) \<Rightarrow> Fin (min a b) | _ \<Rightarrow> NaN))"

text \<open>
  \<^verbatim>\<open>xs.indexOf(v)\<close> compares with \<^verbatim>\<open>===\<close>: \<open>NaN\<close> equals nothing, and no entry of a list
  of finite numbers and \<open>NaN\<close>s equals \<open>Infinity\<close>. The result is \<open>-1\<close> when nothing is found.
\<close>

definition js_indexOf :: "jsnum list \<Rightarrow> jsnum option \<Rightarrow> int" where
  "js_indexOf xs v =
     (case v of
        None \<Rightarrow> - 1
      | Some NaN \<Rightarrow> - 1
      | Some (Fin m) \<Rightarrow>
          (let k = length (takeWhile (\<lambda>x. x \<noteq> Fin m) xs)
           in if k < length xs then int k else - 1))"

text \<open>The accumulated score of one color for node \<open>i\<close>, given the coloring built so far.\<close>

definition nodeValue :: "projection list \<Rightarrow> int list list \<Rightarrow> int list \<Rightarrow> nat \<Rightarrow> nat \<Rightarrow> jsnum" where
  "nodeValue projections g col i color =
     (let v = foldl (\<lambda>acc proj.
                       js_add acc
                         (js_rem1
                            (js_add (js_mul (js_nth (coordinates proj) 0) (Fin (real i)))
                                    (js_mul (js_nth (coordinates proj) 1) (Fin (real color))))))
                    (Fin 0) projections
      in foldl (\<lambda>acc j. if graph_edge g i j \<and> col ! j = int color then js_add acc (Fin 100)
                         else acc)
               v [0..<length g])"

text \<open>\<^verbatim>\<open>Math.max(...xs)\<close> of integers: \<open>None\<close> is \<open>-Infinity\<close>.\<close>

fun js_max_int :: "int list \<Rightarrow> int option" where
  "js_max_int [] = None"
| "js_max_int (x # xs) = (case js_max_int xs of None \<Rightarrow> Some x | Some m \<Rightarrow> Some (max x m))"

definition solveGraphColoring :: "projection list \<Rightarrow> problem \<Rightarrow> coloring_result" where
  "solveGraphColoring projections problem =
     (let n = length (graph problem);
          col = foldl (\<lambda>col i.
                         (let nodeValues =
                                map (nodeValue projections (graph problem) col i)
                                    [0..<maxColors problem]
                          in col[i := js_indexOf nodeValues (js_min nodeValues)]))
                      (replicate n 0) [0..<n]
      in \<lparr>coloring = col, colorCount = map_option (\<lambda>m. m + 1) (js_max_int col)\<rparr>)"

text \<open>
  The literals of all clauses are visited in order; a literal of variable \<open>i\<close> lowers the
  score of the polarity that satisfies it by \<open>0.1\<close>. The two scores decide the assignment by
  a strict comparison, so every product, sum and difference is rounded to a double as the
  code's is, and \<open>0.1\<close> is the double of that literal; \<^verbatim>\<open>% 1\<close> is exact on doubles.
\<close>

definition solveSAT :: "projection list \<Rightarrow> problem \<Rightarrow> sat_result" where
  "solveSAT projections problem =
     (let asg =
            map (\<lambda>i.
                   (let trueValue0 =
                          foldl (\<lambda>acc proj.
                                   js_round
                                     (js_add acc
                                        (js_rem1 (js_round (js_mul (js_nth (coordinates proj) 0)
                                                                   (Fin (real (i + 1))))))))
                                (Fin 0) projections;
                        falseValue0 =
                          foldl (\<lambda>acc proj.
                                   js_round
                                     (js_add acc
                                        (js_rem1 (js_round (js_mul (js_nth (coordinates proj) 1)
                                                                   (Fin (real (i + 1))))))))
                                (Fin 0) projections;
                        (trueValue, falseValue) =
                          foldl (\<lambda>(t, f) literal.
                                   (let variable = \<bar>literal\<bar> - 1; isPositive = (literal > 0)
                                    in if variable = int i
                                       then (if isPositive
                                             then (js_round (js_sub t (Fin (to_double (1 / 10)))), f)
                                             else (t, js_round (js_sub f (Fin (to_double (1 / 10))))))
                                       else (t, f)))
                                (trueValue0, falseValue0) (concat (clauses problem))
                    in js_lt trueValue falseValue))
                [0..<variables problem];
          sat =
            list_all (\<lambda>clause.
                        list_ex (\<lambda>literal.
                                   (let variable = \<bar>literal\<bar> - 1; isPositive = (literal > 0)
                                    in 0 \<le> variable \<and> nat variable < length asg \<and>
                                       asg ! nat variable = isPositive))
                                clause)
                     (clauses problem)
      in \<lparr>assignment = asg, satisfied = sat\<rparr>)"

text \<open>\<^verbatim>\<open>subset[i]\<close> as a condition: a missing entry is \<^verbatim>\<open>undefined\<close>, which is falsy.\<close>

definition member_at :: "bool list \<Rightarrow> nat \<Rightarrow> bool" where
  "member_at sub i = (i < length sub \<and> sub ! i)"

text \<open>
  \<^verbatim>\<open>testSubset[i] = !testSubset[i]\<close>: beyond the end the array grows, the new entry is
  \<^verbatim>\<open>!undefined\<close>, and the holes before it read as \<^verbatim>\<open>undefined\<close>.
\<close>

definition flip_at :: "bool list \<Rightarrow> nat \<Rightarrow> bool list" where
  "flip_at sub i =
     (if i < length sub then sub[i := \<not> sub ! i]
      else sub @ replicate (i - length sub) False @ [True])"

definition subsetTotal :: "real list \<Rightarrow> bool list \<Rightarrow> real" where
  "subsetTotal nums sub =
     foldl (\<lambda>s i. if member_at sub i then s + nums ! i else s) 0 [0..<length nums]"

definition calculateSubsetSumDiff :: "real list \<Rightarrow> real \<Rightarrow> bool list \<Rightarrow> real" where
  "calculateSubsetSumDiff nums tgt sub = \<bar>subsetTotal nums sub - tgt\<bar>"

text \<open>One round of the loop of \<^verbatim>\<open>_refineSubsetSum\<close>, on the pair it updates.\<close>

definition refineStep :: "real list \<Rightarrow> real \<Rightarrow> bool list \<times> real \<Rightarrow> nat \<Rightarrow> bool list \<times> real" where
  "refineStep nums tgt =
     (\<lambda>(bestSubset, bestDiff) i.
        (let testSubset = flip_at bestSubset i;
             diff = calculateSubsetSumDiff nums tgt testSubset
         in if diff < bestDiff then (testSubset, diff) else (bestSubset, bestDiff)))"

definition refineSubsetSum ::
    "real list \<Rightarrow> real \<Rightarrow> bool list \<Rightarrow> projection list \<Rightarrow> subset_result" where
  "refineSubsetSum nums tgt initialSubset projections =
     (let n = length nums;
          (bestSubset, bestDiff) =
            foldl (refineStep nums tgt)
                  (initialSubset, calculateSubsetSumDiff nums tgt initialSubset) [0..<n];
          total = subsetTotal nums bestSubset
      in \<lparr>selectedIndices = filter (member_at bestSubset) [0..<n], ssum = total,
          starget = tgt, difference = \<bar>total - tgt\<bar>\<rparr>)"

definition solveSubsetSum :: "projection list \<Rightarrow> problem \<Rightarrow> subset_result" where
  "solveSubsetSum projections problem =
     (let nums = numbers problem; tgt = target problem; n = length nums;
          sub =
            map (\<lambda>i.
                   (let includeValue =
                          foldl (\<lambda>acc proj.
                                   js_add acc (js_rem1 (js_mul (js_nth (coordinates proj) 0)
                                                               (Fin (nums ! i)))))
                                (Fin 0) projections;
                        excludeValue =
                          foldl (\<lambda>acc proj.
                                   js_add acc (js_rem1 (js_mul (js_nth (coordinates proj) 1)
                                                               (Fin (nums ! i)))))
                                (Fin 0) projections
                    in js_lt includeValue excludeValue))
                [0..<n];
          total = subsetTotal nums sub
      in if \<bar>total - tgt\<bar> > 0.001 * tgt then refineSubsetSum nums tgt sub projections
         else \<lparr>selectedIndices = filter (member_at sub) [0..<n], ssum = total,
               starget = tgt, difference = \<bar>total - tgt\<bar>\<rparr>)"

definition combineSolutionFromProjections ::
    "projection list \<Rightarrow> problem \<Rightarrow> js_error + solution" where
  "combineSolutionFromProjections projections problem =
     (if ptype problem = ''tsp'' then Inr (TourSolution (solveTSP projections problem))
      else if ptype problem = ''graph-coloring''
        then Inr (ColoringSolution (solveGraphColoring projections problem))
      else if ptype problem = ''sat'' then Inr (SatSolution (solveSAT projections problem))
      else if ptype problem = ''subset-sum''
        then Inr (SubsetSolution (solveSubsetSum projections problem))
      else Inl (Error (''Unsupported problem type: '' @ ptype problem)))"

definition collapseSolution :: "pattern \<Rightarrow> problem \<Rightarrow> js_error + solution" where
  "collapseSolution patterns problem =
     combineSolutionFromProjections (topProjections patterns problem) problem"

section \<open>Verifier\<close>

definition verifyTSP :: "tour_result \<Rightarrow> problem \<Rightarrow> bool" where
  "verifyTSP sol problem =
     (card (set (path sol)) = length (cities problem) \<and>
      length (path sol) = length (cities problem))"

text \<open>\<^verbatim>\<open>coloring[i]\<close>: \<open>None\<close> is \<^verbatim>\<open>undefined\<close>.\<close>

definition coloring_at :: "int list \<Rightarrow> nat \<Rightarrow> int option" where
  "coloring_at col i = (if i < length col then Some (col ! i) else None)"

definition verifyGraphColoring :: "coloring_result \<Rightarrow> problem \<Rightarrow> bool" where
  "verifyGraphColoring sol problem =
     (let g = graph problem; n = length g
      in if list_ex (\<lambda>i. list_ex (\<lambda>j. graph_edge g i j \<and>
                                         coloring_at (coloring sol) i = coloring_at (coloring sol) j)
                                  [i + 1..<n])
                    [0..<n]
         then False
         else (case js_max_int (coloring sol) of
                 None \<Rightarrow> True
               | Some m \<Rightarrow> m < int (maxColors problem)))"

definition verifySAT :: "sat_result \<Rightarrow> problem \<Rightarrow> bool" where
  "verifySAT sol problem = satisfied sol"

definition verifySubsetSum :: "subset_result \<Rightarrow> problem \<Rightarrow> bool" where
  "verifySubsetSum sol problem = (difference sol < 0.001 * target problem)"

text \<open>
  The solution checked is the one the same \<^verbatim>\<open>switch\<close> on \<^verbatim>\<open>problem.type\<close> has just built,
  so its shape always fits the type; the other combinations do not occur.
\<close>

definition verifySolution :: "solution \<Rightarrow> problem \<Rightarrow> bool" where
  "verifySolution sol problem =
     (if ptype problem = ''tsp''
        then (case sol of TourSolution r \<Rightarrow> verifyTSP r problem | _ \<Rightarrow> False)
      else if ptype problem = ''graph-coloring''
        then (case sol of ColoringSolution r \<Rightarrow> verifyGraphColoring r problem | _ \<Rightarrow> False)
      else if ptype problem = ''sat''
        then (case sol of SatSolution r \<Rightarrow> verifySAT r problem | _ \<Rightarrow> False)
      else if ptype problem = ''subset-sum''
        then (case sol of SubsetSolution r \<Rightarrow> verifySubsetSum r problem | _ \<Rightarrow> False)
      else False)"

section \<open>MetricsEstimator\<close>

text \<open>
  Both estimates divide by \<open>ln size\<close>; \<open>None\<close> stands for a result that is \<open>NaN\<close> or
  infinite. The measured complexity is finite exactly for a size above 1 (\<open>size * ln size\<close>
  is \<open>0\<close> for size 1 and \<open>NaN\<close> below). The degree is finite for a size above 1 and a
  positive time, and it is \<open>0\<close> for size 0 and a positive time (a finite logarithm
  divided by \<open>-Infinity\<close>); every other case is \<open>NaN\<close> or infinite.
  \<^verbatim>\<open>Math.round(x)\<close> is \<open>\<lfloor>x + 1/2\<rfloor>\<close>.
\<close>

definition getTheoreticalComplexity :: "string \<Rightarrow> string" where
  "getTheoreticalComplexity problemType =
     (if problemType = ''tsp'' then ''O(n!)''
      else if problemType = ''graph-coloring'' then ''O(k^n)''
      else if problemType = ''sat'' then ''O(2^n)''
      else if problemType = ''subset-sum'' then ''O(2^n)''
      else ''Unknown'')"

definition getMeasuredComplexity :: "int \<Rightarrow> real \<Rightarrow> real option" where
  "getMeasuredComplexity sz time =
     (let normalizedTime = time / 10
      in if sz \<le> 1 then None
         else Some (normalizedTime / (real_of_int sz * ln (real_of_int sz))))"

definition getPolynomialDegree :: "int \<Rightarrow> real \<Rightarrow> real option" where
  "getPolynomialDegree sz time =
     (let normalizedTime = time / 10
      in if sz = 0 \<and> 0 < time then Some 0
         else if sz \<le> 1 \<or> time \<le> 0 then None
         else
           (let logTime = ln normalizedTime;
                logSize = ln (real_of_int sz);
                degree = logTime / logSize
            in Some (real_of_int \<lfloor>degree * 100 + 1 / 2\<rfloor> / 100)))"

text \<open>
  \<open>timeComplexity\<close> holds the number that the code prints into the string
  \<^verbatim>\<open>`O(n^${degree})`\<close>.
\<close>

record metrics =
  theoreticalComplexity :: string
  measuredComplexity :: "real option"
  timeComplexity :: "real option"

definition calculateComplexityMetrics :: "problem \<Rightarrow> real \<Rightarrow> metrics" where
  "calculateComplexityMetrics problem timeElapsed =
     \<lparr>theoreticalComplexity = getTheoreticalComplexity (ptype problem),
      measuredComplexity = getMeasuredComplexity (psize problem) timeElapsed,
      timeComplexity = getPolynomialDegree (psize problem) timeElapsed\<rparr>"

section \<open>The entry point\<close>

record solve_result =
  solution :: solution
  isValid :: bool
  timeElapsed :: real
  problemSize :: int
  complexityMetrics :: metrics
  rdriftState :: real

text \<open>
  \<open>startTime\<close> and \<open>endTime\<close> are the two readings of \<^verbatim>\<open>performance.now()\<close>. An exception
  leaves \<^verbatim>\<open>solve\<close> at once; the engine keeps what was written to it before.
\<close>

definition solve :: "engine \<Rightarrow> problem \<Rightarrow> real \<Rightarrow> real \<Rightarrow> (js_error + solve_result) \<times> engine" where
  "solve st problem startTime endTime =
     (case initializeSolutionSpace problem of
        Inl e \<Rightarrow> (Inl e, st)
      | Inr solutionSpace \<Rightarrow>
          (let (driftedSpace, st1) = applyQuantumDrift st solutionSpace problem;
               (patterns, st2) = extractPatterns st1 driftedSpace problem
           in (case collapseSolution patterns problem of
                 Inl e \<Rightarrow> (Inl e, st2)
               | Inr sol \<Rightarrow>
                   (let elapsed = endTime - startTime;
                        valid = verifySolution sol problem;
                        ms = calculateComplexityMetrics problem elapsed
                    in (Inr \<lparr>solution = sol, isValid = valid, timeElapsed = elapsed,
                             problemSize = psize problem, complexityMetrics = ms,
                             rdriftState = driftState st2\<rparr>,
                        st2)))))"

section \<open>The drift transformation on an explicit store\<close>

text \<open>
  \<^verbatim>\<open>_applyQuantumDrift\<close> once more, with the objects it shares made explicit: a store of
  typed arrays (\<^verbatim>\<open>Float64Array\<close>) and of arrays of references, addressed by position;
  \<^verbatim>\<open>new\<close> and the spread copy \<^verbatim>\<open>[...xs]\<close> append an object. A reference held in a
  variable of the code always points to an object of the right kind; the other case of each
  accessor is never taken.
\<close>

datatype obj = F64 "jsnum list" | Arr "nat list"

type_synonym store = "obj list"

record space_ref =
  rdimensions :: int
  rsize :: int
  rconstraints :: "constraint option list"
  rvectors :: nat

definition alloc :: "store \<Rightarrow> obj \<Rightarrow> nat \<times> store" where
  "alloc h v = (length h, h @ [v])"

definition f64_contents :: "store \<Rightarrow> nat \<Rightarrow> jsnum list" where
  "f64_contents h a = (case h ! a of F64 xs \<Rightarrow> xs | Arr _ \<Rightarrow> [])"

definition f64_read :: "store \<Rightarrow> nat \<Rightarrow> nat \<Rightarrow> jsnum" where
  "f64_read h a j = js_nth (f64_contents h a) j"

definition f64_write :: "store \<Rightarrow> nat \<Rightarrow> nat \<Rightarrow> jsnum \<Rightarrow> store" where
  "f64_write h a j x = (case h ! a of F64 xs \<Rightarrow> h[a := F64 (xs[j := x])] | Arr _ \<Rightarrow> h)"

definition arr_elems :: "store \<Rightarrow> nat \<Rightarrow> nat list" where
  "arr_elems h a = (case h ! a of Arr rs \<Rightarrow> rs | F64 _ \<Rightarrow> [])"

definition arr_write :: "store \<Rightarrow> nat \<Rightarrow> nat \<Rightarrow> nat \<Rightarrow> store" where
  "arr_write h a i r = (case h ! a of Arr rs \<Rightarrow> h[a := Arr (rs[i := r])] | F64 _ \<Rightarrow> h)"

text \<open>The inner loop: the two assignments to \<^verbatim>\<open>driftedVector[j]\<close>.\<close>

definition driftInto :: "store \<Rightarrow> real \<Rightarrow> problem \<Rightarrow> nat \<Rightarrow> nat \<Rightarrow> nat \<Rightarrow> store" where
  "driftInto h ds problem i vector driftedVector =
     foldl (\<lambda>h j.
              (let h1 = f64_write h driftedVector j
                          (js_add (f64_read h vector j)
                             (js_mul (js_mul (f64_read h vector j)
                                             (Fin (calculateDriftFactor problem i j)))
                                     (Fin ds)))
               in f64_write h1 driftedVector j (js_clamp01 (f64_read h1 driftedVector j))))
           h [0..<length (f64_contents h vector)]"

definition driftStep :: "problem \<Rightarrow> nat \<Rightarrow> engine \<times> store \<Rightarrow> nat \<Rightarrow> engine \<times> store" where
  "driftStep problem vs = (\<lambda>(st, h) i.
     (let vector = arr_elems h vs ! i;
          (driftedVector, h1) = alloc h (F64 (replicate (length (f64_contents h vector)) (Fin 0)));
          h2 = driftInto h1 (driftState st) problem i vector driftedVector;
          h3 = arr_write h2 vs i driftedVector
      in (pushToTickStack st (f64_contents h3 driftedVector), h3)))"

definition applyQuantumDrift_store ::
    "engine \<Rightarrow> store \<Rightarrow> space_ref \<Rightarrow> problem \<Rightarrow> space_ref \<times> engine \<times> store" where
  "applyQuantumDrift_store st h space problem =
     (let st1 = st\<lparr>cycleCount := cycleCount st + 1\<rparr>;
          st2 = st1\<lparr>driftState := sin (real (cycleCount st1) * PHI) * 0.1\<rparr>;
          (vs, h1) = alloc h (Arr (arr_elems h (rvectors space)));
          (st3, h2) = foldl (driftStep problem vs) (st2, h1) [0..<length (arr_elems h1 vs)]
      in (space\<lparr>rvectors := vs\<rparr>, st3, h2))"

text \<open>What a store holds for a space: the contents of the vectors its array refers to.\<close>

definition space_of :: "store \<Rightarrow> space_ref \<Rightarrow> space" where
  "space_of h r =
     \<lparr>sdimensions = rdimensions r, ssize = rsize r, sconstraints = rconstraints r,
      vectors = map (f64_contents h) (arr_elems h (rvectors r))\<rparr>"

definition is_f64 :: "obj \<Rightarrow> bool" where
  "is_f64 v = (case v of F64 _ \<Rightarrow> True | Arr _ \<Rightarrow> False)"

definition wf_space :: "store \<Rightarrow> space_ref \<Rightarrow> bool" where
  "wf_space h r =
     (rvectors r < length h \<and> \<not> is_f64 (h ! rvectors r) \<and>
      list_all (\<lambda>a. a < length h \<and> is_f64 (h ! a)) (arr_elems h (rvectors r)))"

section \<open>Invariants and example instances\<close>

text \<open>The history of a live engine: one window per dimension, none longer than 100.\<close>

definition tick_inv :: "engine \<Rightarrow> bool" where
  "tick_inv st =
     (length (tickStack st) = DIMENSIONS \<and> list_all (\<lambda>w. length w \<le> 100) (tickStack st))"

definition blank_problem :: problem where
  "blank_problem =
     \<lparr>ptype = [], psize = 0, dimensions = Some 11, constraints = [], cities = [], graph = [],
      maxColors = 0, variables = 0, clauses = [], numbers = [], target = 0\<rparr>"

definition example_space :: space where
  "example_space =
     \<lparr>sdimensions = 11, ssize = 4, sconstraints = [], vectors = [[Fin (1 / 2), Fin (1 / 4)]]\<rparr>"

definition example_pattern :: pattern where
  "example_pattern =
     \<lparr>primaryDimensions = [(0, 1), (2, 3)], correlationStrengths = [Fin 1, Fin (1 / 2)],
      vectorProjections =
        [\<lparr>coordinates = [Fin (1 / 2), Fin (1 / 4)], pvalue = Fin (1 / 2 + 1 / 4 * PHI)\<rparr>,
         \<lparr>coordinates = [Fin (1 / 4), Fin (1 / 2)], pvalue = Fin (1 / 4 + 1 / 2 * PHI)\<rparr>]\<rparr>"

definition unitProblem :: problem where
  "unitProblem = blank_problem\<lparr>ptype := ''sat'', psize := 1, variables := 1, clauses := [[1]]\<rparr>"

definition unitProblem2 :: problem where
  "unitProblem2 = blank_problem\<lparr>ptype := ''sat'', psize := 2, variables := 1, clauses := [[1]]\<rparr>"

definition coloringProblem :: problem where
  "coloringProblem =
     blank_problem\<lparr>ptype := ''graph-coloring'', psize := 2, graph := [[0, 1], [1, 0]],
                     maxColors := 2\<rparr>"

definition tspProblem :: "int \<Rightarrow> problem" where
  "tspProblem n = blank_problem\<lparr>ptype := ''tsp'', psize := n,
      cities := map (\<lambda>i. (real i, 0)) [0..<nat n]\<rparr>"

definition emptyProjection :: projection where
  "emptyProjection = \<lparr>coordinates = [], pvalue = Fin 0\<rparr>"

text \<open>
  The store after \<open>k\<close> rounds of the outer loop of the drift transformation, in closed form:
  the old store, the copied array, and one new typed array per vector processed.
\<close>

definition driftedAt :: "real \<Rightarrow> problem \<Rightarrow> store \<Rightarrow> nat list \<Rightarrow> nat \<Rightarrow> jsnum list" where
  "driftedAt ds p h rs i = driftVector ds p i (f64_contents h (rs ! i))"

definition heapAfter :: "real \<Rightarrow> problem \<Rightarrow> store \<Rightarrow> nat list \<Rightarrow> nat \<Rightarrow> store" where
  "heapAfter ds p h rs k =
     (h @ [Arr rs] @ map (\<lambda>i. F64 (driftedAt ds p h rs i)) [0..<k])
       [length h := Arr (map (\<lambda>i. Suc (length h) + i) [0..<k] @ drop k rs)]"

definition example_store :: store where
  "example_store = [F64 [Fin (1 / 2), Fin (1 / 4)], F64 [Fin (1 / 8), Fin 1], Arr [0, 1]]"

definition example_space_ref :: space_ref where
  "example_space_ref = \<lparr>rdimensions = 11, rsize = 4, rconstraints = [], rvectors = 2\<rparr>"

section \<open>Decimal rendering and the cache key\<close>

lemma lt10_cases: "(k::nat) < 10 \<Longrightarrow> k \<in> {0,1,2,3,4,5,6,7,8,9}"
  by auto

lemma digit_char_inj: "a < 10 \<Longrightarrow> b < 10 \<Longrightarrow> digit_char a = digit_char b \<Longrightarrow> a = b"
  by (drule lt10_cases, drule lt10_cases) (auto simp: digit_char_def)

lemma digit_char_no_dash: "k < 10 \<Longrightarrow> CHR ''-'' \<noteq> digit_char k"
  by (drule lt10_cases) (auto simp: digit_char_def)

lemma show_nat_small: "n < 10 \<Longrightarrow> show_nat n = [digit_char n]"
  by (subst show_nat.simps) simp

lemma show_nat_big: "\<not> n < 10 \<Longrightarrow> show_nat n = show_nat (n div 10) @ [digit_char (n mod 10)]"
  by (subst show_nat.simps) simp

lemma show_nat_ne: "show_nat n \<noteq> []"
  by (cases "n < 10") (simp_all add: show_nat_small show_nat_big)

lemma show_nat_len1: "(length (show_nat n) = 1) = (n < 10)"
proof (cases "n < 10")
  case True then show ?thesis by (simp add: show_nat_small)
next
  case False
  have "length (show_nat n) = length (show_nat (n div 10)) + 1"
    unfolding show_nat_big[OF False] by simp
  moreover have "length (show_nat (n div 10)) \<noteq> 0" using show_nat_ne by simp
  ultimately show ?thesis using False by simp
qed

lemma show_nat_inj: "show_nat m = show_nat n \<Longrightarrow> m = n"
proof (induction m arbitrary: n rule: show_nat.induct)
  case (1 m)
  from "1.prems" have len: "(m < 10) = (n < 10)"
    using show_nat_len1[of m] show_nat_len1[of n] by simp
  show ?case
  proof (cases "m < 10")
    case True
    with len have n: "n < 10" by simp
    from "1.prems" have "[digit_char m] = [digit_char n]"
      unfolding show_nat_small[OF True] show_nat_small[OF n] .
    then have "digit_char m = digit_char n" by simp
    with True n show ?thesis by (rule digit_char_inj)
  next
    case False
    with len have nf: "\<not> n < 10" by simp
    from "1.prems" have e: "show_nat (m div 10) @ [digit_char (m mod 10)]
        = show_nat (n div 10) @ [digit_char (n mod 10)]"
      unfolding show_nat_big[OF False] show_nat_big[OF nf] .
    then have a: "show_nat (m div 10) = show_nat (n div 10)"
        and b: "digit_char (m mod 10) = digit_char (n mod 10)" by simp_all
    from "1.IH"[OF False a] have "m div 10 = n div 10" .
    moreover have "m mod 10 = n mod 10" by (rule digit_char_inj[OF _ _ b]) simp_all
    ultimately show ?thesis by (metis div_mult_mod_eq)
  qed
qed

lemma show_nat_no_dash: "CHR ''-'' \<notin> set (show_nat n)"
proof (induction n rule: show_nat.induct)
  case (1 n)
  show ?case
  proof (cases "n < 10")
    case True
    then show ?thesis unfolding show_nat_small[OF True] by (simp add: digit_char_no_dash)
  next
    case False
    have "n mod 10 < 10" by simp
    then have "CHR ''-'' \<noteq> digit_char (n mod 10)" by (rule digit_char_no_dash)
    with 1[OF False] show ?thesis unfolding show_nat_big[OF False] by simp
  qed
qed

lemma show_nat_hd: "hd (show_nat n) \<noteq> CHR ''-''"
  using show_nat_no_dash[of n] show_nat_ne[of n] by (cases "show_nat n") auto

lemma show_int_inj: "show_int a = show_int b \<Longrightarrow> a = b"
proof -
  assume e: "show_int a = show_int b"
  consider "a < 0" "b < 0" | "a < 0" "\<not> b < 0" | "\<not> a < 0" "b < 0" | "\<not> a < 0" "\<not> b < 0" by blast
  then show ?thesis
  proof cases
    case 1 with e have "nat (- a) = nat (- b)" by (simp add: show_int_def show_nat_inj)
    with 1 show ?thesis by simp
  next
    case 2 with e have "hd (show_nat (nat b)) = CHR ''-''" by (auto simp add: show_int_def dest: arg_cong[where f=hd])
    then show ?thesis using show_nat_hd by blast
  next
    case 3 with e have "hd (show_nat (nat a)) = CHR ''-''" by (auto simp add: show_int_def dest: arg_cong[where f=hd])
    then show ?thesis using show_nat_hd by blast
  next
    case 4 with e have "nat a = nat b" by (simp add: show_int_def show_nat_inj)
    with 4 show ?thesis by simp
  qed
qed

lemma show_nat_eval:
  "numeral k < (10::nat) \<Longrightarrow> show_nat (numeral k) = [digit_char (numeral k)]"
  "\<not> numeral k < (10::nat) \<Longrightarrow>
     show_nat (numeral k) = show_nat (numeral k div 10) @ [digit_char (numeral k mod 10)]"
  "show_nat 0 = [digit_char 0]"
  "show_nat (Suc 0) = [digit_char (Suc 0)]"
  by (simp_all add: show_nat_small show_nat_big)

lemmas key_eval =
  generateProblemKey_def blank_problem_def effectiveDimensions_def show_int_def
  DIMENSIONS_def digit_char_def show_nat_eval

text \<open>
  C6, as the claim states it, fails: two instances of the same kind and size whose dimension
  counts are 11 and 5 get different keys.
\<close>

theorem key_ignores_dimensions_counterexample:
  "generateProblemKey (blank_problem\<lparr>ptype := ''tsp'', psize := 20, dimensions := Some 11\<rparr>) \<noteq>
   generateProblemKey (blank_problem\<lparr>ptype := ''tsp'', psize := 20, dimensions := Some 5\<rparr>)"
  by (simp add: key_eval)

text \<open>
  C6, amended: the cache key is made of the kind, the size and the effective dimension count
  (the instance's own count, or 11 when that is absent or zero). Two instances of the same
  kind and size have the same key exactly when their effective dimension counts agree.
\<close>

theorem key_includes_dimensions:
  "ptype p = ptype q \<Longrightarrow> psize p = psize q \<Longrightarrow>
   (generateProblemKey p = generateProblemKey q) =
   (effectiveDimensions p = effectiveDimensions q)"
  unfolding generateProblemKey_def using show_int_inj by auto

theorem key_includes_dimensions_witness:
  "ptype (blank_problem\<lparr>ptype := ''tsp'', psize := 20, dimensions := Some 11\<rparr>) =
     ptype (blank_problem\<lparr>ptype := ''tsp'', psize := 20, dimensions := None\<rparr>) \<and>
   psize (blank_problem\<lparr>ptype := ''tsp'', psize := 20, dimensions := Some 11\<rparr>) =
     psize (blank_problem\<lparr>ptype := ''tsp'', psize := 20, dimensions := None\<rparr>) \<and>
   generateProblemKey (blank_problem\<lparr>ptype := ''tsp'', psize := 20, dimensions := Some 11\<rparr>) =
     generateProblemKey (blank_problem\<lparr>ptype := ''tsp'', psize := 20, dimensions := None\<rparr>)"
  using key_includes_dimensions
          [of "blank_problem\<lparr>ptype := ''tsp'', psize := 20, dimensions := Some 11\<rparr>"
              "blank_problem\<lparr>ptype := ''tsp'', psize := 20, dimensions := None\<rparr>"]
  by (simp add: blank_problem_def effectiveDimensions_def DIMENSIONS_def)

section \<open>The dimension history\<close>

lemma foldl_update_nth:
  "i < length ts \<Longrightarrow>
   foldl (\<lambda>ts i. ts[i := f i (ts ! i)]) ts [0..<k] ! i = (if i < k then f i (ts ! i) else ts ! i)"
proof (induction k)
  case 0 then show ?case by simp
next
  case (Suc k)
  have len: "length (foldl (\<lambda>ts i. ts[i := f i (ts ! i)]) ts [0..<k]) = length ts" for k
    by (induction k) simp_all
  show ?case using Suc len[of k] by (auto simp: nth_list_update less_Suc_eq)
qed

lemma foldl_update_length:
  "length (foldl (\<lambda>ts i. ts[i := f i (ts ! i)]) ts [0..<k]) = length ts"
  by (induction k) simp_all

lemma push_length: "length (tickStack (pushToTickStack st v)) = length (tickStack st)"
  by (simp add: pushToTickStack_def foldl_update_length[where f = "\<lambda>i w. push_window w (v ! i)"])

lemma push_nth:
  "i < length (tickStack st) \<Longrightarrow>
   tickStack (pushToTickStack st v) ! i =
     (if i < min (length v) DIMENSIONS then push_window (tickStack st ! i) (v ! i)
      else tickStack st ! i)"
  by (simp add: pushToTickStack_def foldl_update_nth[where f = "\<lambda>i w. push_window w (v ! i)"])

lemma push_other [simp]:
  "patternCache (pushToTickStack st v) = patternCache st"
  "driftState (pushToTickStack st v) = driftState st"
  "cycleCount (pushToTickStack st v) = cycleCount st"
  by (simp_all add: pushToTickStack_def)

lemma push_window_lastN: "length w \<le> 100 \<Longrightarrow> push_window w x = lastN 100 (w @ [x])"
proof (cases "length w = 100")
  case True
  then have "w \<noteq> []" by auto
  then have "tl (w @ [x]) = drop 1 (w @ [x])" by (cases w) simp_all
  with True show ?thesis by (simp add: push_window_def lastN_def Let_def)
next
  case False
  assume "length w \<le> 100"
  with False show ?thesis by (simp add: push_window_def lastN_def Let_def)
qed

lemma push_window_le: "length w \<le> 100 \<Longrightarrow> length (push_window w x) \<le> 100"
  by (auto simp: push_window_def Let_def)

lemma push_window_full: "length w = 100 \<Longrightarrow> push_window w x = tl w @ [x]"
  by (cases w) (auto simp: push_window_def Let_def)

lemma push_window_room: "length w < 100 \<Longrightarrow> push_window w x = w @ [x]"
  by (auto simp: push_window_def Let_def)

lemma lastN_lastN_append: "lastN n (lastN n xs @ ys) = lastN n (xs @ ys)"
proof (cases "n \<le> length xs")
  case True
  then show ?thesis by (simp add: lastN_def add.commute)
next
  case False
  then show ?thesis by (simp add: lastN_def)
qed

lemma lastN_append_long: "n \<le> length ys \<Longrightarrow> lastN n (xs @ ys) = lastN n ys"
  by (simp add: lastN_def)

lemma lastN_short: "length xs \<le> n \<Longrightarrow> lastN n xs = xs"
  by (simp add: lastN_def)

lemma length_lastN: "length (lastN n xs) = min n (length xs)"
  by (auto simp: lastN_def)

lemma tick_inv_push: "tick_inv st \<Longrightarrow> tick_inv (pushToTickStack st v)"
  unfolding tick_inv_def list_all_length
  by (auto simp: push_length push_nth push_window_le)

lemma pushes_nth:
  "tick_inv st \<Longrightarrow> i < DIMENSIONS \<Longrightarrow> \<forall>v\<in>set vs. i < length v \<Longrightarrow>
   tickStack (foldl pushToTickStack st vs) ! i = lastN 100 (tickStack st ! i @ map (\<lambda>v. v ! i) vs)"
proof (induction vs arbitrary: st)
  case Nil
  then show ?case by (simp add: tick_inv_def list_all_length lastN_short)
next
  case (Cons v vs)
  have w: "length (tickStack st ! i) \<le> 100" and l: "i < length (tickStack st)"
    using Cons.prems by (simp_all add: tick_inv_def list_all_length)
  have "tickStack (pushToTickStack st v) ! i = lastN 100 (tickStack st ! i @ [v ! i])"
    using Cons.prems l w by (simp add: push_nth push_window_lastN)
  moreover have "tickStack (foldl pushToTickStack (pushToTickStack st v) vs) ! i
      = lastN 100 (tickStack (pushToTickStack st v) ! i @ map (\<lambda>v. v ! i) vs)"
    using Cons.prems by (intro Cons.IH tick_inv_push) simp_all
  ultimately show ?case by (simp add: lastN_lastN_append)
qed

lemma tick_inv_pushes: "tick_inv st \<Longrightarrow> tick_inv (foldl pushToTickStack st vs)"
  by (induction vs arbitrary: st) (simp_all add: tick_inv_push)

lemma length_driftVector [simp]: "length (driftVector ds p i v) = length v"
  by (simp add: driftVector_def)

lemma foldl_push_driftState [simp]: "driftState (foldl pushToTickStack st vs) = driftState st"
  by (induction vs arbitrary: st) simp_all

lemma driftVectors_fst:
  "fst (driftVectors p i vs st) = map (\<lambda>(k, v). driftVector (driftState st) p k v) (zip [i..<i + length vs] vs)"
proof (induction vs arbitrary: i st)
  case Nil then show ?case by simp
next
  case (Cons v vs)
  have "[i..<i + length (v # vs)] = i # [Suc i..<Suc i + length vs]"
    by (simp add: upt_rec)
  then show ?case using Cons[of "Suc i"] by (simp add: Let_def split_beta)
qed

lemma driftVectors_snd:
  "snd (driftVectors p i vs st) = foldl pushToTickStack st (fst (driftVectors p i vs st))"
proof (induction vs arbitrary: i st)
  case Nil then show ?case by simp
next
  case (Cons v vs)
  show ?case using Cons[of "Suc i"] by (simp add: Let_def split_beta driftVectors_fst)
qed

lemma driftVectors_lengths:
  "map length (fst (driftVectors p i vs st)) = map length vs"
  by (induction vs arbitrary: i st) (simp_all add: Let_def split_beta)

lemma drift_fst: "vectors (fst (applyQuantumDrift st sp p)) =
   fst (driftVectors p 0 (vectors sp) (st\<lparr>cycleCount := cycleCount st + 1, driftState := sin (real (cycleCount st + 1) * PHI) * 0.1\<rparr>))"
  by (simp add: applyQuantumDrift_def Let_def split_beta)

lemma drift_snd: "snd (applyQuantumDrift st sp p) =
   foldl pushToTickStack (st\<lparr>cycleCount := cycleCount st + 1, driftState := sin (real (cycleCount st + 1) * PHI) * 0.1\<rparr>)
     (vectors (fst (applyQuantumDrift st sp p)))"
  by (simp add: applyQuantumDrift_def Let_def split_beta driftVectors_snd[symmetric])

lemma tick_inv_upd [simp]: "tick_inv (st\<lparr>cycleCount := c, driftState := d\<rparr>) = tick_inv st"
  by (simp add: tick_inv_def)

lemma tick_inv_drift: "tick_inv st \<Longrightarrow> tick_inv (snd (applyQuantumDrift st sp p))"
  by (simp add: drift_snd tick_inv_pushes)

lemma tick_inv_new: "tick_inv new_engine"
  by (simp add: tick_inv_def new_engine_def DIMENSIONS_def list_all_length)

text \<open>
  C8: every window of the dimension history holds at most 100 values, and it is a FIFO: after
  a drift application the window of dimension \<open>i\<close> is the last 100 values of what it held
  followed by the \<open>i\<close>-th entries of the drifted vectors, in vector order; a single append to
  a window of 100 values drops exactly its oldest entry. Once 100 or more values have been
  appended, the window holds the last 100 of them and nothing it held before.
\<close>

theorem dimension_history_fifo:
  assumes "tick_inv st" and "i < DIMENSIONS" and "\<forall>v\<in>set (vectors sp). i < length v"
  shows "tick_inv (snd (applyQuantumDrift st sp p)) \<and>
         tickStack (snd (applyQuantumDrift st sp p)) ! i =
           lastN 100 (tickStack st ! i @ map (\<lambda>v. v ! i) (vectors (fst (applyQuantumDrift st sp p)))) \<and>
         length (tickStack (snd (applyQuantumDrift st sp p)) ! i) \<le> 100 \<and>
         (100 \<le> length (vectors sp) \<longrightarrow>
            tickStack (snd (applyQuantumDrift st sp p)) ! i =
              lastN 100 (map (\<lambda>v. v ! i) (vectors (fst (applyQuantumDrift st sp p))))) \<and>
         (i < length v \<longrightarrow>
            tickStack (pushToTickStack st v) ! i =
              (if length (tickStack st ! i) = 100 then tl (tickStack st ! i) @ [v ! i]
               else tickStack st ! i @ [v ! i]))"
proof -
  let ?st = "st\<lparr>cycleCount := cycleCount st + 1, driftState := sin (real (cycleCount st + 1) * PHI) * 0.1\<rparr>"
  let ?ds = "vectors (fst (applyQuantumDrift st sp p))"
  have lens: "map length ?ds = map length (vectors sp)"
    by (simp add: drift_fst driftVectors_lengths)
  have "\<forall>v\<in>set ?ds. i < length v"
  proof
    fix v assume "v \<in> set ?ds"
    then have "length v \<in> set (map length ?ds)" by simp
    with lens have "length v \<in> length ` set (vectors sp)" by simp
    with assms(3) show "i < length v" by auto
  qed
  with assms have "tickStack (foldl pushToTickStack ?st ?ds) ! i =
      lastN 100 (tickStack ?st ! i @ map (\<lambda>v. v ! i) ?ds)"
    by (intro pushes_nth) simp_all
  moreover have "snd (applyQuantumDrift st sp p) = foldl pushToTickStack ?st ?ds"
    by (rule drift_snd)
  moreover have "tickStack ?st = tickStack st" by simp
  ultimately have A: "tickStack (snd (applyQuantumDrift st sp p)) ! i =
           lastN 100 (tickStack st ! i @ map (\<lambda>v. v ! i) ?ds)"
    by (simp only:)
  have B: "tick_inv (snd (applyQuantumDrift st sp p))" using assms(1) by (rule tick_inv_drift)
  have C: "length (tickStack (snd (applyQuantumDrift st sp p)) ! i) \<le> 100"
    unfolding A by (simp add: length_lastN)
  have w: "length (tickStack st ! i) \<le> 100" and l: "i < length (tickStack st)"
    using assms by (simp_all add: tick_inv_def list_all_length)
  have D: "i < length v \<longrightarrow>
            tickStack (pushToTickStack st v) ! i =
              (if length (tickStack st ! i) = 100 then tl (tickStack st ! i) @ [v ! i]
               else tickStack st ! i @ [v ! i])"
    using w l assms(2) by (auto simp: push_nth push_window_full push_window_room)
  have "length ?ds = length (vectors sp)" using lens by (metis length_map)
  then have E: "100 \<le> length (vectors sp) \<longrightarrow>
            tickStack (snd (applyQuantumDrift st sp p)) ! i = lastN 100 (map (\<lambda>v. v ! i) ?ds)"
    unfolding A by (simp add: lastN_append_long)
  from A B C D E show ?thesis by blast
qed

theorem dimension_history_fifo_witness:
  "tick_inv new_engine \<and> 0 < DIMENSIONS \<and> list_all (\<lambda>v. 0 < length v) (vectors example_space) \<and>
   tickStack (snd (applyQuantumDrift new_engine example_space (blank_problem\<lparr>psize := 4\<rparr>))) ! 0 =
     lastN 100 (tickStack new_engine ! 0 @
       map (\<lambda>v. v ! 0)
           (vectors (fst (applyQuantumDrift new_engine example_space (blank_problem\<lparr>psize := 4\<rparr>))))) \<and>
   length (tickStack (snd (applyQuantumDrift new_engine example_space (blank_problem\<lparr>psize := 4\<rparr>))) ! 0)
     \<le> 100"
proof -
  have h1: "tick_inv new_engine" by (rule tick_inv_new)
  have h2: "0 < DIMENSIONS" by (simp add: DIMENSIONS_def)
  have h3: "\<forall>v\<in>set (vectors example_space). 0 < length v" by (simp add: example_space_def)
  have h4: "list_all (\<lambda>v. 0 < length v) (vectors example_space)"
    by (simp add: example_space_def)
  from dimension_history_fifo [OF h1 h2 h3, of "blank_problem\<lparr>psize := 4\<rparr>" "[]"] h1 h2 h4
  show ?thesis by blast
qed

section \<open>Subset-sum refinement\<close>

lemma refine_loop_inv:
  "snd s = calculateSubsetSumDiff nums tgt (fst s) \<Longrightarrow>
   snd (foldl (refineStep nums tgt) s ks) = calculateSubsetSumDiff nums tgt (fst (foldl (refineStep nums tgt) s ks)) \<and>
   snd (foldl (refineStep nums tgt) s ks) \<le> snd s"
proof (induction ks arbitrary: s)
  case Nil then show ?case by simp
next
  case (Cons k ks)
  obtain b d where s: "s = (b, d)" by (cases s)
  let ?s' = "refineStep nums tgt s k"
  have inv: "snd ?s' = calculateSubsetSumDiff nums tgt (fst ?s')" and le: "snd ?s' \<le> snd s"
    using Cons.prems by (auto simp: s refineStep_def Let_def)
  from Cons.IH[OF inv] le show ?case by auto
qed

lemma foldl_cond_sum:
  "foldl (\<lambda>s i. if P i then s + g i else s) a xs = a + sum_list (map g (filter P xs))"
  for a :: real
  by (induction xs arbitrary: a) simp_all

lemma subsetTotal_sum:
  "subsetTotal nums sub = sum_list (map (\<lambda>i. nums ! i) (filter (member_at sub) [0..<length nums]))"
  by (simp add: subsetTotal_def foldl_cond_sum)

lemma refine_unfold:
  "refineSubsetSum nums tgt sub projections =
     (let s = foldl (refineStep nums tgt) (sub, calculateSubsetSumDiff nums tgt sub) [0..<length nums];
          total = subsetTotal nums (fst s)
      in \<lparr>selectedIndices = filter (member_at (fst s)) [0..<length nums], ssum = total,
          starget = tgt, difference = \<bar>total - tgt\<bar>\<rparr>)"
  by (simp add: refineSubsetSum_def Let_def split_beta)

text \<open>
  C5: the subset that \<^verbatim>\<open>_refineSubsetSum\<close> returns is at least as close to the target as
  the subset it was given: the reported difference is \<open>\<bar>sum - target\<bar>\<close> for the sum of the
  selected numbers, and it does not exceed \<open>\<bar>sum\<^sub>0 - target\<bar>\<close> for the sum of the numbers
  selected before.
\<close>

theorem refinement_never_worse:
  "difference (refineSubsetSum nums tgt sub projections) \<le> calculateSubsetSumDiff nums tgt sub \<and>
   difference (refineSubsetSum nums tgt sub projections) =
     \<bar>ssum (refineSubsetSum nums tgt sub projections) - tgt\<bar> \<and>
   ssum (refineSubsetSum nums tgt sub projections) =
     sum_list (map (\<lambda>i. nums ! i) (selectedIndices (refineSubsetSum nums tgt sub projections))) \<and>
   calculateSubsetSumDiff nums tgt sub =
     \<bar>sum_list (map (\<lambda>i. nums ! i) (filter (member_at sub) [0..<length nums])) - tgt\<bar>"
proof -
  let ?s = "foldl (refineStep nums tgt) (sub, calculateSubsetSumDiff nums tgt sub) [0..<length nums]"
  have "snd ?s = calculateSubsetSumDiff nums tgt (fst ?s) \<and> snd ?s \<le> calculateSubsetSumDiff nums tgt sub"
    using refine_loop_inv[of "(sub, calculateSubsetSumDiff nums tgt sub)" nums tgt "[0..<length nums]"] by simp
  then have "\<bar>subsetTotal nums (fst ?s) - tgt\<bar> \<le> calculateSubsetSumDiff nums tgt sub"
    by (simp add: calculateSubsetSumDiff_def)
  then show ?thesis
    by (simp add: refine_unfold Let_def subsetTotal_sum[symmetric] calculateSubsetSumDiff_def)
qed

section \<open>Vector generation and the dimension count\<close>

lemma PHI_gt1: "1 < PHI"
  by (simp add: PHI_def)

lemma vectorCount_pos: "2 \<le> psize p \<Longrightarrow> 0 < vectorCount p"
proof -
  assume a: "2 \<le> psize p"
  then have "1 \<le> log 2 (real_of_int (psize p))" by (simp add: le_log_iff)
  then have "0 < log 2 (real_of_int (psize p)) * PHI" using PHI_gt1 by (simp add: mult_pos_pos)
  then have "0 < \<lceil>log 2 (real_of_int (psize p)) * PHI\<rceil>" by linarith
  with a show ?thesis by (simp add: vectorCount_def)
qed

lemma vectorCount_small: "psize p \<le> 1 \<Longrightarrow> vectorCount p = 0"
proof (cases "psize p \<le> 0")
  case True then show ?thesis by (simp add: vectorCount_def)
next
  case False
  assume "psize p \<le> 1"
  with False have "psize p = 1" by simp
  then show ?thesis by (simp add: vectorCount_def)
qed

lemma generate_negative:
  "effectiveDimensions p < 0 \<Longrightarrow> generateSolutionVector p seed = Inl RangeError"
  by (simp add: generateSolutionVector_def)

lemma generate_ok:
  "0 \<le> effectiveDimensions p \<Longrightarrow>
   \<exists>v. generateSolutionVector p seed = Inr v \<and> length v = nat (effectiveDimensions p)"
  by (simp add: generateSolutionVector_def Let_def)

lemma generateVectors_fail:
  "effectiveDimensions p < 0 \<Longrightarrow> ks \<noteq> [] \<Longrightarrow> generateVectors p ks = Inl RangeError"
  by (cases ks) (simp_all add: generate_negative)

lemma generateVectors_ok:
  "0 \<le> effectiveDimensions p \<Longrightarrow>
   \<exists>vs. generateVectors p ks = Inr vs \<and> length vs = length ks \<and>
        list_all (\<lambda>v. length v = nat (effectiveDimensions p)) vs"
proof (induction ks)
  case Nil then show ?case by simp
next
  case (Cons k ks)
  from generate_ok[OF Cons.prems, of k] obtain v where
    "generateSolutionVector p k = Inr v" "length v = nat (effectiveDimensions p)" by blast
  moreover from Cons obtain vs where "generateVectors p ks = Inr vs" "length vs = length ks"
    "list_all (\<lambda>v. length v = nat (effectiveDimensions p)) vs" by blast
  ultimately show ?case by simp
qed

lemma initialize_fail:
  "effectiveDimensions p < 0 \<Longrightarrow> 2 \<le> psize p \<Longrightarrow> initializeSolutionSpace p = Inl RangeError"
  using vectorCount_pos[of p]
  by (simp add: initializeSolutionSpace_def generateVectors_fail)

lemma rem1_0 [simp]: "rem1 0 = 0"
  by (simp add: rem1_def)

text \<open>
  C4, as the claim states it, fails for a dimension count of 0: the vector is generated, with
  the fallback count of 11.
\<close>

theorem zero_dimension_counterexample:
  "generateSolutionVector (blank_problem\<lparr>psize := 4, dimensions := Some 0\<rparr>) 0 = Inr (replicate 11 (Fin 0))"
  by (simp add: generateSolutionVector_def effectiveDimensions_def DIMENSIONS_def blank_problem_def
      constraint_at_def map_replicate_const)

text \<open>
  C4, amended: a negative dimension count makes vector generation fail with the
  \<^verbatim>\<open>RangeError\<close> of the typed-array allocation (the code has no error named
  InvalidDimension); \<^verbatim>\<open>solve\<close> does not catch it, so it reaches the caller whenever a
  vector is generated, that is for a size of at least 2, and the engine is left untouched.
  A count of 0, like an absent one, is replaced by the default of 11 dimensions and the
  vector is produced; every other count is used as it is.
\<close>

theorem negative_dimension_fails:
  "(effectiveDimensions p < 0 \<longrightarrow> generateSolutionVector p seed = Inl RangeError) \<and>
   (effectiveDimensions p < 0 \<and> 2 \<le> psize p \<longrightarrow> solve st p t0 t1 = (Inl RangeError, st)) \<and>
   (dimensions p = None \<or> dimensions p = Some 0 \<longrightarrow>
      (\<exists>v. generateSolutionVector p seed = Inr v \<and> length v = 11)) \<and>
   (dimensions p = Some d \<and> d \<noteq> 0 \<longrightarrow> effectiveDimensions p = d)"
proof -
  have a: "effectiveDimensions p < 0 \<longrightarrow> generateSolutionVector p seed = Inl RangeError"
    by (simp add: generate_negative)
  have b: "effectiveDimensions p < 0 \<and> 2 \<le> psize p \<longrightarrow> solve st p t0 t1 = (Inl RangeError, st)"
    by (simp add: solve_def initialize_fail)
  have c: "dimensions p = None \<or> dimensions p = Some 0 \<longrightarrow>
      (\<exists>v. generateSolutionVector p seed = Inr v \<and> length v = 11)"
  proof
    assume "dimensions p = None \<or> dimensions p = Some 0"
    then have e: "effectiveDimensions p = 11" by (auto simp: effectiveDimensions_def DIMENSIONS_def)
    then show "\<exists>v. generateSolutionVector p seed = Inr v \<and> length v = 11"
      using generate_ok[of p seed] by simp
  qed
  have d: "dimensions p = Some d \<and> d \<noteq> 0 \<longrightarrow> effectiveDimensions p = d"
    by (simp add: effectiveDimensions_def)
  from a b c d show ?thesis by blast
qed

theorem negative_dimension_fails_witness:
  "effectiveDimensions (blank_problem\<lparr>psize := 4, dimensions := Some (- 3)\<rparr>) < 0 \<and>
   2 \<le> psize (blank_problem\<lparr>psize := 4, dimensions := Some (- 3)\<rparr>) \<and>
   generateSolutionVector (blank_problem\<lparr>psize := 4, dimensions := Some (- 3)\<rparr>) 0 = Inl RangeError \<and>
   solve new_engine (blank_problem\<lparr>psize := 4, dimensions := Some (- 3)\<rparr>) 0 1 = (Inl RangeError, new_engine)"
  using negative_dimension_fails
    [of "blank_problem\<lparr>psize := 4, dimensions := Some (- 3)\<rparr>" 0 new_engine 0 1 "- 3"]
  by (simp add: effectiveDimensions_def blank_problem_def)

section \<open>Rounding to a double\<close>

lemma round_even_le: "y \<le> of_int k \<Longrightarrow> round_even y \<le> k"
proof -
  assume a: "y \<le> of_int k"
  have "\<lfloor>y\<rfloor> \<le> k" using a by linarith
  moreover have "y - of_int \<lfloor>y\<rfloor> \<ge> 1 / 2 \<Longrightarrow> \<lfloor>y\<rfloor> + 1 \<le> k"
  proof -
    assume "y - of_int \<lfloor>y\<rfloor> \<ge> 1 / 2"
    then have "of_int \<lfloor>y\<rfloor> < y" by linarith
    with a have "real_of_int \<lfloor>y\<rfloor> < of_int k" by linarith
    then show ?thesis by linarith
  qed
  ultimately show ?thesis by (auto simp: round_even_def Let_def)
qed

lemma round_even_ge: "\<lfloor>y\<rfloor> \<le> round_even y"
  by (auto simp: round_even_def Let_def)

lemma round_even_err: "\<bar>of_int (round_even y) - y\<bar> \<le> 1 / 2"
proof -
  have "of_int \<lfloor>y\<rfloor> \<le> y" "y < of_int \<lfloor>y\<rfloor> + 1" by linarith+
  then show ?thesis by (auto simp: round_even_def Let_def abs_le_iff)
qed

lemma to_double_0 [simp]: "to_double 0 = 0"
  by (simp add: to_double_def)

lemma to_double_pos_unfold:
  assumes "1 \<le> x"
  shows "to_double x = 2 powr (of_int \<lfloor>log 2 x\<rfloor> - 52) * of_int (round_even (x / 2 powr (of_int \<lfloor>log 2 x\<rfloor> - 52)))"
proof -
  have "0 \<le> log 2 x" using assms by simp
  then have "0 \<le> \<lfloor>log 2 x\<rfloor>" by simp
  then have "max \<lfloor>log 2 x\<rfloor> (- 1022) = \<lfloor>log 2 x\<rfloor>" by simp
  then show ?thesis using assms by (simp add: to_double_def Let_def)
qed

lemma to_double_lower:
  assumes "1 \<le> x" "x < 64"
  shows "x - 1 / 2 ^ 48 \<le> to_double x"
proof -
  define e where "e = \<lfloor>log 2 x\<rfloor>"
  define q :: real where "q = 2 powr (real_of_int e - 52)"
  define r :: real where "r = of_int (round_even (x / q))"
  have q0: "0 < q" by (simp add: q_def)
  have "log 2 x < 6" using assms by (simp add: log_less_iff)
  then have "e \<le> 5" unfolding e_def by linarith
  then have "real_of_int e - 52 \<le> - 47" by linarith
  then have "q \<le> 2 powr (- 47)" unfolding q_def by (intro powr_mono) simp_all
  also have "\<dots> = 1 / 2 ^ 47" by (simp add: powr_minus_divide)
  finally have q: "q \<le> 1 / 2 ^ 47" .
  have "\<bar>r - x / q\<bar> \<le> 1 / 2" unfolding r_def by (rule round_even_err)
  then have "x / q - 1 / 2 \<le> r" by linarith
  then have "q * (x / q - 1 / 2) \<le> q * r"
    using q0 by (intro mult_left_mono) simp_all
  moreover have "q * (x / q - 1 / 2) = x - q / 2"
    using q0 by (simp add: right_diff_distrib)
  ultimately have "x - q / 2 \<le> q * r" by simp
  moreover have "q / 2 \<le> 1 / 2 ^ 48" using q by simp
  moreover have "to_double x = q * r"
    using to_double_pos_unfold[OF assms(1)] by (simp add: q_def r_def e_def)
  ultimately show ?thesis by linarith
qed

lemma to_double_upper:
  assumes "1 \<le> x" "x \<le> of_int m" "x < 2 ^ 53"
  shows "to_double x \<le> of_int m"
proof -
  define e where "e = \<lfloor>log 2 x\<rfloor>"
  define q :: real where "q = 2 powr (real_of_int e - 52)"
  define r :: real where "r = of_int (round_even (x / q))"
  define s :: int where "s = 2 ^ nat (52 - e)"
  have q0: "0 < q" by (simp add: q_def)
  have "log 2 x < 53" using assms by (simp add: log_less_iff)
  then have e52: "e \<le> 52" unfolding e_def by linarith
  have "real_of_int e - 52 = - real_of_int (52 - e)" by simp
  then have "q = inverse (2 powr real_of_int (52 - e))" unfolding q_def by (simp only: powr_minus)
  moreover have "2 powr real_of_int (52 - e) = (2::real) ^ nat (52 - e)"
    using e52 powr_int[of "2::real" "52 - e"] by simp
  ultimately have qi: "q = inverse (of_int s)" by (simp add: s_def)
  have s0: "0 < real_of_int s" by (simp add: s_def)
  have ms: "of_int m / q = real_of_int (m * s)" by (simp add: qi field_simps)
  have "x / q \<le> of_int m / q" using assms(2) q0 by (simp add: divide_right_mono)
  then have "x / q \<le> real_of_int (m * s)" using ms by simp
  then have "round_even (x / q) \<le> m * s" by (rule round_even_le)
  then have "r \<le> real_of_int (m * s)" unfolding r_def by linarith
  then have "q * r \<le> q * real_of_int (m * s)"
    using q0 by (intro mult_left_mono) simp_all
  also have "\<dots> = of_int m" using s0 by (simp add: qi)
  finally have "q * r \<le> of_int m" .
  moreover have "to_double x = q * r"
    using to_double_pos_unfold[OF assms(1)] by (simp add: q_def r_def e_def)
  ultimately show ?thesis by simp
qed

lemma log2_step: "1 / 2 ^ 48 < log 2 (1 + 1 / 2 ^ 31)"
proof -
  let ?y = "1 / 2 ^ 31 :: real"
  have "?y - ?y\<^sup>2 \<le> ln (1 + ?y)" by (intro ln_one_plus_pos_lower_bound) simp_all
  moreover have "1 / 2 ^ 32 \<le> ?y - ?y\<^sup>2" by (simp add: power2_eq_square)
  ultimately have a: "1 / 2 ^ 32 \<le> ln (1 + ?y)" by linarith
  have l2: "0 < ln (2::real)" "ln (2::real) < 1"
    using ln_less_self[of 2] ln_2_less_1 by simp_all
  have "1 / 2 ^ 48 * ln (2::real) < 1 / 2 ^ 48 * 1" using l2 by (intro mult_strict_left_mono) simp_all
  also have "\<dots> \<le> 1 / 2 ^ 32" by simp
  finally have "1 / 2 ^ 48 * ln (2::real) < ln (1 + ?y)" using a by linarith
  then have "1 / 2 ^ 48 < ln (1 + ?y) / ln (2::real)" using l2 by (simp add: field_simps)
  then show ?thesis by (simp add: log_def)
qed

lemma ceil_log2_double:
  assumes "2 \<le> n" "n \<le> 2 ^ 32"
  shows "\<lceil>to_double (log 2 (real_of_int n))\<rceil> = \<lceil>log 2 (real_of_int n)\<rceil>"
proof -
  let ?x = "log 2 (real_of_int n)"
  let ?c = "\<lceil>?x\<rceil>"
  have x1: "1 \<le> ?x" using assms by (simp add: le_log_iff)
  have "real_of_int n \<le> 2 ^ 32" using assms(2) by simp
  moreover have "0 < real_of_int n" using assms(1) by simp
  ultimately have "?x \<le> log 2 (2 ^ 32)" by (intro log_mono) simp_all
  moreover have "log 2 ((2::real) ^ 32) = real 32" by (rule log_pow_cancel) simp_all
  ultimately have x32: "?x \<le> 32" by (simp only: of_nat_numeral)
  have "?x \<le> of_int ?c" by linarith
  moreover have "(32::real) < 2 ^ 53" by simp
  then have "?x < 2 ^ 53" using x32 by (rule le_less_trans[rotated])
  ultimately have up: "to_double ?x \<le> of_int ?c"
    using x1 by (intro to_double_upper)
  have c1: "1 \<le> ?c" using x1 by linarith
  have c32: "?c \<le> 32" using x32 by (simp add: ceiling_le_iff)
  let ?k = "nat (?c - 1)"
  have k: "real_of_int (?c - 1) = real ?k" using c1 by simp
  have k31: "?k \<le> 31" unfolding nat_le_iff using c32 by linarith
  have "real_of_int (?c - 1) < ?x" by linarith
  then have "2 powr real ?k < real_of_int n" using assms k by (simp add: less_log_iff)
  then have "(2::real) ^ ?k < real_of_int n" by (simp add: powr_realpow)
  then have "(2::int) ^ ?k < n" by simp
  then have "(2::int) ^ ?k + 1 \<le> n" by simp
  then have "real_of_int (2 ^ ?k + 1) \<le> real_of_int n" by (simp only: of_int_le_iff)
  then have n': "(2::real) ^ ?k + 1 \<le> real_of_int n" by simp
  have pos: "0 < (2::real) ^ ?k + 1" by (simp add: add_pos_pos)
  have A: "log 2 ((2::real) ^ ?k + 1) \<le> ?x"
    using n' pos by (intro log_mono) simp_all
  have fac: "(2::real) ^ ?k + 1 = 2 ^ ?k * (1 + 1 / 2 ^ ?k)" by (simp add: field_simps)
  have pos2: "0 < 1 + 1 / (2::real) ^ ?k" by (simp add: add_pos_pos)
  have "log 2 (2 ^ ?k * (1 + 1 / 2 ^ ?k)) = log 2 (2 ^ ?k) + log 2 (1 + 1 / 2 ^ ?k)"
    using pos2 by (intro log_mult_pos) simp_all
  then have B: "log 2 ((2::real) ^ ?k + 1) = real ?k + log 2 (1 + 1 / 2 ^ ?k)"
    using fac by (simp add: log_nat_power)
  have C: "log 2 (1 + 1 / 2 ^ 31) \<le> log 2 (1 + 1 / 2 ^ ?k)"
  proof -
    have "(2::real) ^ ?k \<le> 2 ^ 31" using k31 by (intro power_increasing) simp_all
    then have "1 / 2 ^ 31 \<le> 1 / (2::real) ^ ?k" by (simp add: frac_le)
    then show ?thesis by (intro log_mono) simp_all
  qed
  from A B C log2_step have "real ?k + 1 / 2 ^ 48 < ?x" by linarith
  moreover have "?x - 1 / 2 ^ 48 \<le> to_double ?x" using x1 x32 by (intro to_double_lower) simp_all
  ultimately have lo: "real_of_int (?c - 1) < to_double ?x" using k by linarith
  from up lo show ?thesis by (simp add: ceiling_eq_iff)
qed

lemma topCount_small:
  assumes "1 \<le> psize p" "psize p \<le> 2 ^ 32"
  shows "topCount p = ceillog2 (nat (psize p))"
proof (cases "psize p = 1")
  case True
  then show ?thesis by (simp add: topCount_def)
next
  case False
  with assms have "2 \<le> psize p" by simp
  then show ?thesis using assms ceil_log2_double[of "psize p"]
    by (simp add: topCount_def ceillog2_def)
qed

lemma ln2_gt_half: "1 / 2 < ln (2::real)"
proof -
  have "exp (1 / 2 :: real) \<le> 1 + 1 / 2 + (1 / 2)\<^sup>2" by (intro exp_bound) simp_all
  also have "\<dots> < 2" by (simp add: power2_eq_square)
  finally have "exp (1 / 2 :: real) < exp (ln 2)" by simp
  then show ?thesis by (simp only: exp_less_cancel_iff)
qed

text \<open>Just above \<open>2\<^sup>4\<^sup>9\<close> the double of the logarithm is 49 itself.\<close>

lemma to_double_log2_above_power: "to_double (log 2 (2 ^ 49 + 1)) = 49"
proof -
  define y :: real where "y = 1 / 2 ^ 49"
  define d :: real where "d = log 2 (1 + y)"
  define x :: real where "x = log 2 (2 ^ 49 + 1)"
  have y0: "0 < y" by (simp add: y_def)
  have "(2::real) ^ 49 + 1 = 2 ^ 49 * (1 + y)" by (simp add: y_def field_simps)
  moreover have "log 2 (2 ^ 49 * (1 + y)) = log 2 (2 ^ 49) + log 2 (1 + y)"
    using y0 by (intro log_mult_pos) simp_all
  moreover have "log 2 ((2::real) ^ 49) = real 49" by (rule log_pow_cancel) simp_all
  ultimately have x: "x = 49 + d" by (simp add: x_def d_def)
  have d0: "0 < d" unfolding d_def using y0 by simp
  have "ln (1 + y) \<le> y" using y0 by (intro ln_add_one_self_le_self) simp
  moreover have "y < 2 * y * ln 2" using y0 ln2_gt_half by simp
  ultimately have "ln (1 + y) < 2 * y * ln 2" by linarith
  moreover have "0 < ln (2::real)" by simp
  ultimately have "ln (1 + y) / ln 2 < 2 * y" by (simp add: field_simps)
  then have d1: "d < 1 / 2 ^ 48" by (simp add: d_def log_def y_def)
  have x1: "1 \<le> x" using x d0 by simp
  have "32 \<le> x" "x < 64" using x d0 d1 by simp_all
  then have "5 \<le> log 2 x" "log 2 x < 6" by (simp_all add: le_log_iff log_less_iff)
  then have e: "\<lfloor>log 2 x\<rfloor> = 5" by linarith
  have "2 powr (real_of_int 5 - 52) = 1 / (2::real) ^ 47"
    by (simp add: powr_minus_divide)
  then have q: "2 powr (real_of_int \<lfloor>log 2 x\<rfloor> - 52) = 1 / (2::real) ^ 47"
    by (simp only: e)
  have "x / (1 / 2 ^ 47) = real_of_int (49 * 2 ^ 47) + d * 2 ^ 47" by (simp add: x algebra_simps)
  moreover have "0 \<le> d * 2 ^ 47" "d * 2 ^ 47 < 1 / 2" using d0 d1 by simp_all
  ultimately have fl: "\<lfloor>x / (1 / 2 ^ 47)\<rfloor> = 49 * 2 ^ 47"
    and fr: "x / (1 / 2 ^ 47) - real_of_int (49 * 2 ^ 47) < 1 / 2"
    by (simp_all add: floor_unique)
  have re: "round_even (x / (1 / 2 ^ 47)) = 49 * 2 ^ 47"
    unfolding round_even_def Let_def fl using fr by simp
  have "to_double x = 1 / 2 ^ 47 * real_of_int (round_even (x / (1 / 2 ^ 47)))"
    by (simp only: to_double_pos_unfold[OF x1] q)
  then have "to_double x = 1 / 2 ^ 47 * real_of_int (49 * 2 ^ 47)"
    by (simp only: re)
  then show ?thesis by (simp add: x_def)
qed

text \<open>The doubles of \<open>0.1\<close>, \<open>0.4\<close> and \<open>0.5\<close>, and the tie of \<open>0.5 - 0.1\<close>.\<close>

lemma to_double_minus: "to_double (- x) = - to_double x"
  by (simp add: to_double_def Let_def sgn_minus)

lemma round_even_int: "round_even (of_int k) = k"
  by (simp add: round_even_def Let_def)

lemma to_double_binade:
  assumes "2 powr real_of_int e \<le> x" "x < 2 powr (real_of_int e + 1)" "- 1022 \<le> e"
  shows "to_double x =
           2 powr (real_of_int e - 52) * real_of_int (round_even (x / 2 powr (real_of_int e - 52)))"
proof -
  have x0: "0 < x" using assms(1) by (rule less_le_trans[rotated]) simp
  then have "real_of_int e \<le> log 2 x" "log 2 x < real_of_int e + 1"
    using assms by (simp_all add: le_log_iff log_less_iff)
  then have "\<lfloor>log 2 x\<rfloor> = e" by linarith
  then have "max \<lfloor>log 2 \<bar>x\<bar>\<rfloor> (- 1022) = e" using x0 assms(3) by simp
  then show ?thesis using x0 by (simp add: to_double_def Let_def)
qed

lemma to_double_tenth: "to_double (1 / 10) = 3602879701896397 / 36028797018963968"
proof -
  have "\<lfloor>(1 / 10 :: real) / (1 / 2 ^ 56)\<rfloor> = 7205759403792793" by simp
  then have re: "round_even ((1 / 10 :: real) / (1 / 2 ^ 56)) = 7205759403792794"
    unfolding round_even_def Let_def by simp
  have "to_double (1 / 10) =
      2 powr (real_of_int (- 4) - 52) * real_of_int (round_even ((1 / 10) / 2 powr (real_of_int (- 4) - 52)))"
    by (rule to_double_binade) (simp_all add: powr_minus_divide)
  also have "2 powr (real_of_int (- 4) - 52) = 1 / (2::real) ^ 56" by (simp add: powr_minus_divide)
  finally show ?thesis by (simp only: re) simp
qed

lemma to_double_four_tenths: "to_double (2 / 5) = 3602879701896397 / 9007199254740992"
proof -
  have "\<lfloor>(2 / 5 :: real) / (1 / 2 ^ 54)\<rfloor> = 7205759403792793" by simp
  then have re: "round_even ((2 / 5 :: real) / (1 / 2 ^ 54)) = 7205759403792794"
    unfolding round_even_def Let_def by simp
  have "to_double (2 / 5) =
      2 powr (real_of_int (- 2) - 52) * real_of_int (round_even ((2 / 5) / 2 powr (real_of_int (- 2) - 52)))"
    by (rule to_double_binade) (simp_all add: powr_minus_divide)
  also have "2 powr (real_of_int (- 2) - 52) = 1 / (2::real) ^ 54" by (simp add: powr_minus_divide)
  finally show ?thesis by (simp only: re) simp
qed

text \<open>A value that is a multiple of the spacing of its binade is a double.\<close>

lemma to_double_exact:
  assumes "2 powr real_of_int e \<le> x" "x < 2 powr (real_of_int e + 1)" "- 1022 \<le> e"
    and "x / 2 powr (real_of_int e - 52) = real_of_int k"
  shows "to_double x = x"
proof -
  have "to_double x = 2 powr (real_of_int e - 52) * real_of_int (round_even (real_of_int k))"
    using to_double_binade[OF assms(1-3)] assms(4) by simp
  also have "\<dots> = 2 powr (real_of_int e - 52) * (x / 2 powr (real_of_int e - 52))"
    by (simp add: round_even_int assms(4))
  finally show ?thesis by simp
qed

lemma to_double_tenth_double:
  "to_double (3602879701896397 / 36028797018963968) = 3602879701896397 / 36028797018963968"
  by (rule to_double_exact[where e = "- 4" and k = 7205759403792794])
     (simp_all add: powr_minus_divide)

lemma to_double_four_tenths_double:
  "to_double (3602879701896397 / 9007199254740992) = 3602879701896397 / 9007199254740992"
  by (rule to_double_exact[where e = "- 2" and k = 7205759403792794])
     (simp_all add: powr_minus_divide)

lemma to_double_half: "to_double (1 / 2) = 1 / 2"
  by (rule to_double_exact[where e = "- 1" and k = "2 ^ 52"])
     (simp_all add: powr_minus_divide)

text \<open>\<open>0.5 - 0.1\<close> on doubles is a tie, resolved to the even neighbour, the double of \<open>0.4\<close>.\<close>

lemma half_minus_tenth:
  "to_double (14411518807585587 / 36028797018963968) = 3602879701896397 / 9007199254740992"
proof -
  let ?x = "14411518807585587 / 36028797018963968 :: real"
  have "?x / (1 / 2 ^ 54) = real_of_int 7205759403792793 + 1 / 2" by simp
  then have fl: "\<lfloor>?x / (1 / 2 ^ 54)\<rfloor> = 7205759403792793"
    and fr: "?x / (1 / 2 ^ 54) - real_of_int 7205759403792793 = 1 / 2"
    by (simp_all add: floor_unique)
  have re: "round_even (?x / (1 / 2 ^ 54)) = 7205759403792794"
    unfolding round_even_def Let_def fl fr by simp
  have "to_double ?x =
      2 powr (real_of_int (- 2) - 52) * real_of_int (round_even (?x / 2 powr (real_of_int (- 2) - 52)))"
    by (rule to_double_binade) (simp_all add: powr_minus_divide)
  also have "2 powr (real_of_int (- 2) - 52) = 1 / (2::real) ^ 54" by (simp add: powr_minus_divide)
  finally show ?thesis by (simp only: re) simp
qed

section \<open>Sorting and the Collapser\<close>

lemma is_fin_iff: "is_fin x = (\<exists>r. x = Fin r)"
  by (cases x) (simp_all add: is_fin_def)

lemma fin_val_Fin [simp]: "fin_val (Fin r) = r"
  by (simp add: fin_val_def)
lemma is_fin_Fin [simp]: "is_fin (Fin r)" "\<not> is_fin NaN"
  by (simp_all add: is_fin_def)

lemma js_insert_insort:
  "is_fin (k x) \<Longrightarrow> list_all (\<lambda>y. is_fin (k y)) ys \<Longrightarrow>
   js_insert (\<lambda>a b. js_sub (k b) (k a)) x ys = insort_key (\<lambda>q. - fin_val (k q)) x ys"
  by (induction ys) (auto simp: is_fin_iff)

lemma js_sort_desc:
  "list_all (\<lambda>y. is_fin (k y)) xs \<Longrightarrow>
   js_sort (\<lambda>a b. js_sub (k b) (k a)) xs = sort_key (\<lambda>q. - fin_val (k q)) xs"
proof (induction xs)
  case Nil then show ?case by (simp add: js_sort_def)
next
  case (Cons x xs)
  then have ih: "foldr (js_insert (\<lambda>a b. js_sub (k b) (k a))) xs [] = sort_key (\<lambda>q. - fin_val (k q)) xs"
    by (simp add: js_sort_def)
  have "list_all (\<lambda>y. is_fin (k y)) (sort_key (\<lambda>q. - fin_val (k q)) xs)"
    using Cons.prems by (simp add: list_all_iff)
  with Cons.prems ih show ?case by (simp add: js_sort_def js_insert_insort)
qed

lemma topProjections_sorted:
  "list_all (\<lambda>q. is_fin (pvalue q)) (vectorProjections pat) \<Longrightarrow>
   topProjections pat p =
     take (topCount p) (sort_key (\<lambda>q. - fin_val (pvalue q)) (vectorProjections pat))"
  by (simp add: topProjections_def js_sort_desc[where k = pvalue])

lemma topCount_one: "psize p = 1 \<Longrightarrow> topCount p = 0"
  by (simp add: topCount_def)

lemma initialize_size_one:
  "initializeSolutionSpace unitProblem =
     Inr \<lparr>sdimensions = 11, ssize = 1, sconstraints = [], vectors = []\<rparr>"
  by (simp add: initializeSolutionSpace_def vectorCount_def unitProblem_def blank_problem_def
      effectiveDimensions_def)

text \<open>
  C2, as the claim states it, fails: in a call for an instance of size 1 on a new engine the
  list handed to the strategy is empty.
\<close>

theorem collapser_minimum_counterexample:
  "(case initializeSolutionSpace unitProblem of
      Inl e \<Rightarrow> False
    | Inr sp \<Rightarrow>
        topProjections
          (fst (extractPatterns (snd (applyQuantumDrift new_engine sp unitProblem))
                                (fst (applyQuantumDrift new_engine sp unitProblem)) unitProblem))
          unitProblem = [])"
proof -
  have "psize unitProblem = 1"
    by (simp add: unitProblem_def blank_problem_def)
  then have "topProjections pat unitProblem = []" for pat
    by (simp add: topProjections_def topCount_one)
  then show ?thesis by (simp add: initialize_size_one)
qed

text \<open>
  C2, amended: for a size of at least 1 and projections with numeric values, the Collapser
  hands to the strategy the first \<open>\<lceil>Math.log2 size\<rceil>\<close> projections of the stable sort by
  descending value (all of them if there are fewer), in descending order of value.
  \<^verbatim>\<open>Math.log2\<close> is the logarithm rounded to a double: the count is \<open>\<lceil>log\<^sub>2 size\<rceil>\<close> for
  every size up to \<open>2\<^sup>3\<^sup>2\<close>, and it is 49, not 50, for size \<open>2\<^sup>4\<^sup>9 + 1\<close>. There is no minimum
  of one: for size 1 the strategy receives the empty list.
\<close>

theorem collapser_keeps_top:
  "1 \<le> psize p \<and> list_all (\<lambda>q. is_fin (pvalue q)) (vectorProjections pat) \<longrightarrow>
     topProjections pat p =
       take (nat \<lceil>to_double (log 2 (real_of_int (psize p)))\<rceil>)
            (sort_key (\<lambda>q. - fin_val (pvalue q)) (vectorProjections pat)) \<and>
     length (topProjections pat p) =
       min (nat \<lceil>to_double (log 2 (real_of_int (psize p)))\<rceil>) (length (vectorProjections pat)) \<and>
     sorted (map (\<lambda>q. - fin_val (pvalue q)) (topProjections pat p)) \<and>
     collapseSolution pat p = combineSolutionFromProjections (topProjections pat p) p \<and>
     (psize p \<le> 2 ^ 32 \<longrightarrow>
        nat \<lceil>to_double (log 2 (real_of_int (psize p)))\<rceil> = nat \<lceil>log 2 (real_of_int (psize p))\<rceil> \<and>
        nat \<lceil>to_double (log 2 (real_of_int (psize p)))\<rceil> = ceillog2 (nat (psize p))) \<and>
     (psize p = 2 ^ 49 + 1 \<longrightarrow> nat \<lceil>to_double (log 2 (real_of_int (psize p)))\<rceil> = 49) \<and>
     (psize p = 1 \<longrightarrow> topProjections pat p = [])"
proof
  assume h: "1 \<le> psize p \<and> list_all (\<lambda>q. is_fin (pvalue q)) (vectorProjections pat)"
  let ?k = "nat \<lceil>to_double (log 2 (real_of_int (psize p)))\<rceil>"
  let ?s = "sort_key (\<lambda>q. - fin_val (pvalue q)) (vectorProjections pat)"
  have tc: "topCount p = ?k" using h by (simp add: topCount_def)
  have a: "topProjections pat p = take ?k ?s"
    using h topProjections_sorted[of pat p] tc by simp
  have c: "length (topProjections pat p) = min ?k (length (vectorProjections pat))"
    unfolding a by simp
  have "sorted (map (\<lambda>q. - fin_val (pvalue q)) ?s)" by simp
  then have "sorted (take ?k (map (\<lambda>q. - fin_val (pvalue q)) ?s))" by (rule sorted_wrt_take)
  then have d: "sorted (map (\<lambda>q. - fin_val (pvalue q)) (topProjections pat p))"
    unfolding a by (simp add: take_map)
  have e: "collapseSolution pat p = combineSolutionFromProjections (topProjections pat p) p"
    by (simp add: collapseSolution_def)
  have b: "psize p \<le> 2 ^ 32 \<longrightarrow>
        ?k = nat \<lceil>log 2 (real_of_int (psize p))\<rceil> \<and> ?k = ceillog2 (nat (psize p))"
  proof
    assume le: "psize p \<le> 2 ^ 32"
    with h have "topCount p = ceillog2 (nat (psize p))" by (intro topCount_small) simp_all
    moreover have "ceillog2 (nat (psize p)) = nat \<lceil>log 2 (real_of_int (psize p))\<rceil>"
      using h by (simp add: ceillog2_def)
    ultimately show "?k = nat \<lceil>log 2 (real_of_int (psize p))\<rceil> \<and> ?k = ceillog2 (nat (psize p))"
      using tc by simp
  qed
  have g: "psize p = 2 ^ 49 + 1 \<longrightarrow> ?k = 49"
  proof
    assume "psize p = 2 ^ 49 + 1"
    then have "real_of_int (psize p) = 2 ^ 49 + 1" by simp
    then show "?k = 49" by (simp only: to_double_log2_above_power) simp
  qed
  have f: "psize p = 1 \<longrightarrow> topProjections pat p = []"
    by (simp add: topProjections_def topCount_one)
  from a b c d e f g show "topProjections pat p = take ?k ?s \<and>
     length (topProjections pat p) = min ?k (length (vectorProjections pat)) \<and>
     sorted (map (\<lambda>q. - fin_val (pvalue q)) (topProjections pat p)) \<and>
     collapseSolution pat p = combineSolutionFromProjections (topProjections pat p) p \<and>
     (psize p \<le> 2 ^ 32 \<longrightarrow>
        ?k = nat \<lceil>log 2 (real_of_int (psize p))\<rceil> \<and> ?k = ceillog2 (nat (psize p))) \<and>
     (psize p = 2 ^ 49 + 1 \<longrightarrow> ?k = 49) \<and>
     (psize p = 1 \<longrightarrow> topProjections pat p = [])" by blast
qed

theorem collapser_keeps_top_witness:
  "1 \<le> psize (blank_problem\<lparr>ptype := ''sat'', psize := 2\<rparr>) \<and>
   list_all (\<lambda>q. is_fin (pvalue q)) (vectorProjections example_pattern) \<and>
   topProjections example_pattern (blank_problem\<lparr>ptype := ''sat'', psize := 2\<rparr>) =
     [\<lparr>coordinates = [Fin (1 / 4), Fin (1 / 2)], pvalue = Fin (1 / 4 + 1 / 2 * PHI)\<rparr>]"
proof -
  have h: "1 \<le> psize (blank_problem\<lparr>ptype := ''sat'', psize := 2\<rparr>) \<and>
   list_all (\<lambda>q. is_fin (pvalue q)) (vectorProjections example_pattern)"
    by (simp add: blank_problem_def example_pattern_def)
  have s: "psize (blank_problem\<lparr>ptype := ''sat'', psize := 2\<rparr>) \<le> 2 ^ 32"
    by (simp add: blank_problem_def)
  from collapser_keeps_top[of "blank_problem\<lparr>ptype := ''sat'', psize := 2\<rparr>" example_pattern] h s
  have "topProjections example_pattern (blank_problem\<lparr>ptype := ''sat'', psize := 2\<rparr>) =
       take (ceillog2 (nat (psize (blank_problem\<lparr>ptype := ''sat'', psize := 2\<rparr>))))
            (sort_key (\<lambda>q. - fin_val (pvalue q)) (vectorProjections example_pattern))"
    by simp
  then have "topProjections example_pattern (blank_problem\<lparr>ptype := ''sat'', psize := 2\<rparr>) =
     [\<lparr>coordinates = [Fin (1 / 4), Fin (1 / 2)], pvalue = Fin (1 / 4 + 1 / 2 * PHI)\<rparr>]"
    by (simp add: blank_problem_def example_pattern_def PHI_def)
  with h show ?thesis by blast
qed

section \<open>A call on an engine with a short history\<close>

text \<open>
  While no window holds more than 10 values the analyzer selects no dimension pair, and every
  projection is the one without coordinates.
\<close>

lemma foldl_push_cache [simp]: "patternCache (foldl pushToTickStack st vs) = patternCache st"
  by (induction vs arbitrary: st) simp_all

lemma drift_cache [simp]: "patternCache (snd (applyQuantumDrift st sp p)) = patternCache st"
  by (simp add: drift_snd)

lemma push_window_length_le: "length (push_window w x) \<le> Suc (length w)"
  by (auto simp: push_window_def Let_def)

lemma pushes_length_le:
  "i < length (tickStack st) \<Longrightarrow>
   length (tickStack (foldl pushToTickStack st vs) ! i) \<le> length (tickStack st ! i) + length vs"
proof (induction vs arbitrary: st)
  case Nil then show ?case by simp
next
  case (Cons v vs)
  have "length (tickStack (pushToTickStack st v) ! i) \<le> Suc (length (tickStack st ! i))"
    using Cons.prems push_window_length_le[of "tickStack st ! i" "v ! i"] by (simp add: push_nth)
  moreover have "length (tickStack (foldl pushToTickStack (pushToTickStack st v) vs) ! i)
      \<le> length (tickStack (pushToTickStack st v) ! i) + length vs"
    using Cons.prems by (intro Cons.IH) (simp add: push_length)
  ultimately show ?case by simp
qed

lemma drift_window_le:
  "i < length (tickStack st) \<Longrightarrow>
   length (tickStack (snd (applyQuantumDrift st sp p)) ! i)
     \<le> length (tickStack st ! i) + length (vectors sp)"
proof -
  assume i: "i < length (tickStack st)"
  let ?st = "st\<lparr>cycleCount := cycleCount st + 1, driftState := sin (real (cycleCount st + 1) * PHI) * 0.1\<rparr>"
  have "length (vectors (fst (applyQuantumDrift st sp p))) = length (vectors sp)"
    using driftVectors_lengths[of p 0 "vectors sp" ?st]
    by (simp add: drift_fst) (metis length_map)
  moreover have "length (tickStack (foldl pushToTickStack ?st (vectors (fst (applyQuantumDrift st sp p)))) ! i)
     \<le> length (tickStack ?st ! i) + length (vectors (fst (applyQuantumDrift st sp p)))"
    using i by (intro pushes_length_le) simp
  moreover have "snd (applyQuantumDrift st sp p) = foldl pushToTickStack ?st (vectors (fst (applyQuantumDrift st sp p)))"
    by (rule drift_snd)
  ultimately show ?thesis by simp
qed

lemma drift_vectors_length:
  "length (vectors (fst (applyQuantumDrift st sp p))) = length (vectors sp)"
proof -
  let ?st = "st\<lparr>cycleCount := cycleCount st + 1, driftState := sin (real (cycleCount st + 1) * PHI) * 0.1\<rparr>"
  show ?thesis using driftVectors_lengths[of p 0 "vectors sp" ?st]
    by (simp add: drift_fst) (metis length_map)
qed

lemma sparse_no_correlations:
  "\<forall>i<DIMENSIONS. length (tickStack st ! i) \<le> 10 \<Longrightarrow> calculateDimensionalCorrelations st = []"
  by (auto simp: calculateDimensionalCorrelations_def Let_def)

lemma js_sort_Nil [simp]: "js_sort cmp [] = []"
  by (simp add: js_sort_def)

lemma js_sort_replicate:
  "\<not> js_gt (cmp q q) (Fin 0) \<Longrightarrow> js_sort cmp (replicate n q) = replicate n q"
proof (induction n)
  case 0 then show ?case by simp
next
  case (Suc n)
  then have "js_sort cmp (replicate n q) = replicate n q" by simp
  then have "js_sort cmp (replicate (Suc n) q) = js_insert cmp q (replicate n q)"
    by (simp add: js_sort_def)
  also have "\<dots> = replicate (Suc n) q" using Suc.prems by (cases n) simp_all
  finally show ?case .
qed

lemma sparse_patterns:
  "calculateDimensionalCorrelations st = [] \<Longrightarrow>
   computePatterns st sp =
     \<lparr>primaryDimensions = [], correlationStrengths = [],
      vectorProjections = replicate (length (vectors sp)) emptyProjection\<rparr>"
  by (simp add: computePatterns_def Let_def projectVectorOntoPatternSpace_def emptyProjection_def
      map_replicate_const)

lemma initialize_ok:
  "0 \<le> effectiveDimensions p \<Longrightarrow>
   \<exists>sp. initializeSolutionSpace p = Inr sp \<and> length (vectors sp) = vectorCount p"
  using generateVectors_ok[of p "[0..<vectorCount p]"]
  by (auto simp: initializeSolutionSpace_def)

lemma top_of_sparse:
  "topProjections \<lparr>primaryDimensions = [], correlationStrengths = [],
      vectorProjections = replicate n emptyProjection\<rparr> p =
   replicate (min (topCount p) n) emptyProjection"
  by (simp add: topProjections_def Let_def js_sort_replicate emptyProjection_def)

lemma solve_sparse:
  assumes len: "length (tickStack st) = DIMENSIONS"
    and sparse: "\<forall>i<DIMENSIONS. length (tickStack st ! i) + vectorCount p \<le> 10"
    and dims: "0 \<le> effectiveDimensions p"
    and miss: "patternCache st (generateProblemKey p) = None"
  shows "map_sum id solution (fst (solve st p t0 t1)) =
         combineSolutionFromProjections
           (replicate (min (topCount p) (vectorCount p)) emptyProjection) p"
proof -
  from initialize_ok[OF dims] obtain sp where
    sp: "initializeSolutionSpace p = Inr sp" and n: "length (vectors sp) = vectorCount p" by blast
  let ?d = "applyQuantumDrift st sp p"
  have "\<forall>i<DIMENSIONS. length (tickStack (snd ?d) ! i) \<le> 10"
  proof (intro allI impI)
    fix i assume i: "i < DIMENSIONS"
    with len have "length (tickStack (snd ?d) ! i) \<le> length (tickStack st ! i) + length (vectors sp)"
      by (intro drift_window_le) simp
    with sparse i n show "length (tickStack (snd ?d) ! i) \<le> 10" by fastforce
  qed
  then have nc: "calculateDimensionalCorrelations (snd ?d) = []" by (rule sparse_no_correlations)
  have lk: "lookupPattern (snd ?d) p = None" using miss by (simp add: lookupPattern_def)
  have ex: "fst (extractPatterns (snd ?d) (fst ?d) p) =
     \<lparr>primaryDimensions = [], correlationStrengths = [],
      vectorProjections = replicate (vectorCount p) emptyProjection\<rparr>"
    using lk sparse_patterns[OF nc, of "fst ?d"] n
    by (simp add: extractPatterns_def Let_def drift_vectors_length)
  show ?thesis
    using sp ex
    by (simp add: solve_def Let_def split_beta collapseSolution_def top_of_sparse
             split: sum.splits)
qed

lemma vectorCount_coloring: "vectorCount coloringProblem = 2"
  by (simp add: vectorCount_def coloringProblem_def blank_problem_def PHI_def)

lemma topCount_coloring: "topCount coloringProblem = 1"
proof -
  have "topCount coloringProblem = ceillog2 (nat (psize coloringProblem))"
    by (rule topCount_small) (simp_all add: coloringProblem_def blank_problem_def)
  then show ?thesis by (simp add: coloringProblem_def blank_problem_def)
qed

lemma upt2: "[0..<2] = [0, Suc 0]"
  by (simp add: upt_rec)

text \<open>
  C10 fails on the code: the first call of a new engine on the two-node graph with one edge
  and two colors returns the coloring \<open>[-1, -1]\<close>. The projections have no coordinates, so
  every score is \<open>NaN\<close>, \<^verbatim>\<open>Math.min\<close> is \<open>NaN\<close> and \<^verbatim>\<open>indexOf\<close> finds nothing.
\<close>

theorem coloring_out_of_range:
  "map_sum id solution (fst (solve new_engine coloringProblem t0 t1)) =
     Inr (ColoringSolution \<lparr>coloring = [- 1, - 1], colorCount = Some 0\<rparr>)"
proof -
  have a: "length (tickStack new_engine) = DIMENSIONS" by (simp add: new_engine_def)
  have b: "\<forall>i<DIMENSIONS. length (tickStack new_engine ! i) + vectorCount coloringProblem \<le> 10"
    by (simp add: new_engine_def vectorCount_coloring)
  have c: "0 \<le> effectiveDimensions coloringProblem"
    by (simp add: effectiveDimensions_def coloringProblem_def blank_problem_def DIMENSIONS_def)
  have d: "patternCache new_engine (generateProblemKey coloringProblem) = None"
    by (simp add: new_engine_def)
  have e: "solveGraphColoring [emptyProjection] coloringProblem =
      \<lparr>coloring = [- 1, - 1], colorCount = Some 0\<rparr>"
    by (simp add: solveGraphColoring_def coloringProblem_def blank_problem_def emptyProjection_def
        nodeValue_def js_nth_def js_indexOf_def graph_edge_def upt2 Let_def)
  have f: "ptype coloringProblem = ''graph-coloring''" "psize coloringProblem = 2"
    by (simp_all add: coloringProblem_def blank_problem_def)
  show ?thesis
    using solve_sparse[OF a b c d, of t0 t1] e f
    by (simp add: vectorCount_coloring topCount_coloring combineSolutionFromProjections_def)
qed

section \<open>The Satisfaction strategy on a unit clause\<close>

lemma rem1_small: "0 \<le> x \<Longrightarrow> x < 1 \<Longrightarrow> rem1 x = x"
  by (simp add: rem1_def floor_eq_iff)

lemma solveSAT_empty_unit:
  "solveSAT [] unitProblem = \<lparr>assignment = [True], satisfied = True\<rparr>"
  by (simp add: solveSAT_def unitProblem_def blank_problem_def Let_def to_double_tenth
      to_double_minus to_double_tenth_double)


text \<open>
  With numeric coordinates the comparison is the one of the doubles: for the coordinates
  \<open>0.5\<close> and \<open>0.4\<close> the true score \<open>0.5 - 0.1\<close> rounds to the double of \<open>0.4\<close>, which is not
  below the false score.
\<close>

lemma solveSAT_tie_unit:
  "solveSAT [\<lparr>coordinates = [Fin (1 / 2), Fin (to_double (2 / 5))], pvalue = Fin 0\<rparr>] unitProblem2
     = \<lparr>assignment = [False], satisfied = False\<rparr>"
  by (simp add: solveSAT_def unitProblem2_def blank_problem_def Let_def js_nth_def
      to_double_tenth to_double_four_tenths to_double_half to_double_four_tenths_double
      rem1_small half_minus_tenth)



text \<open>
  For size 1 the strategy receives no projection, and the unit clause is satisfied in every
  state of the engine.
\<close>

lemma unit_clause_size_one:
  "map_sum id solution (fst (solve st unitProblem t0 t1)) =
     Inr (SatSolution \<lparr>assignment = [True], satisfied = True\<rparr>)"
proof -
  have "psize unitProblem = 1" "ptype unitProblem = ''sat''"
    by (simp_all add: unitProblem_def blank_problem_def)
  then show ?thesis
    by (simp add: solve_def initialize_size_one Let_def split_beta collapseSolution_def
        topProjections_def topCount_one combineSolutionFromProjections_def solveSAT_empty_unit)
qed


section \<open>Metrics\<close>







section \<open>The cache across two calls\<close>

lemma extract_cache_other:
  "k \<noteq> generateProblemKey p \<Longrightarrow> patternCache (snd (extractPatterns st sp p)) k = patternCache st k"
  by (simp add: extractPatterns_def Let_def split: option.splits)

lemma solve_cache_other:
  "k \<noteq> generateProblemKey p \<Longrightarrow> patternCache (snd (solve st p t0 t1)) k = patternCache st k"
  by (simp add: solve_def Let_def split_beta extract_cache_other split: sum.splits)

lemma lookup_miss_compute:
  "lookupPattern st p = None \<Longrightarrow>
   extractPatterns st sp p =
     (computePatterns st sp,
      st\<lparr>patternCache := (patternCache st)(generateProblemKey p \<mapsto> computePatterns st sp)\<rparr>)"
  by (simp add: extractPatterns_def Let_def)

lemma split_dash_ne [simp]: "split_dash s \<noteq> []"
  by (induction s) (auto split: list.splits)

lemma coloring_never_valid: "ptype p = ''graph-coloring'' \<Longrightarrow> \<not> isPatternValid c p"
  by (auto simp: isPatternValid_def generateProblemKey_def split: list.splits option.splits)

lemma subset_sum_never_valid: "ptype p = ''subset-sum'' \<Longrightarrow> \<not> isPatternValid c p"
  by (auto simp: isPatternValid_def generateProblemKey_def split: list.splits option.splits)

lemma key_tsp20: "generateProblemKey (tspProblem 20) = ''tsp-20-11''"
  by (simp add: tspProblem_def key_eval)

lemma key_tsp21: "generateProblemKey (tspProblem 21) = ''tsp-21-11''"
  by (simp add: tspProblem_def key_eval)

text \<open>
  A repeated instance of kind \<^verbatim>\<open>tsp\<close> is found in the cache and accepted.
\<close>

lemma same_instance_hits:
  "lookupPattern (snd (applyQuantumDrift (snd (solve new_engine (tspProblem 20) t0 t1)) sp (tspProblem 20)))
      (tspProblem 20) \<noteq> None"
proof -
  have v: "isPatternValid c (tspProblem 20)" for c
    unfolding isPatternValid_def key_tsp20
    by (simp add: tspProblem_def blank_problem_def
        parseInt10_def parse_digits_def is_digit_def digits_value_def digit_value_def)
  have d: "0 \<le> effectiveDimensions (tspProblem 20)"
    by (simp add: tspProblem_def blank_problem_def effectiveDimensions_def)
  from initialize_ok[OF d] obtain sp0 where "initializeSolutionSpace (tspProblem 20) = Inr sp0" by blast
  moreover have "ptype (tspProblem 20) = ''tsp''" by (simp add: tspProblem_def)
  ultimately have "patternCache (snd (solve new_engine (tspProblem 20) t0 t1)) (generateProblemKey (tspProblem 20)) \<noteq> None"
    by (simp add: solve_def Let_def split_beta extractPatterns_def lookupPattern_def new_engine_def
        collapseSolution_def combineSolutionFromProjections_def)
  then show ?thesis using v by (auto simp: lookupPattern_def split: option.splits)
qed

text \<open>
  C1 fails on the code: after a call for a tour instance of size 20 on a new engine, the
  lookup of a call for size 21 (within 20 percent, same kind) finds nothing, because the key
  contains the exact size; the pattern returned is the freshly computed one. For the kind
  \<^verbatim>\<open>graph-coloring\<close> even the very same instance misses, because the validity check cuts
  the key at the hyphen inside the kind.
\<close>

theorem similar_size_misses_cache:
  "ptype (tspProblem 20) = ptype (tspProblem 21) \<and>
   \<bar>real_of_int (psize (tspProblem 20)) - real_of_int (psize (tspProblem 21))\<bar>
      / real_of_int (psize (tspProblem 21)) < 0.2 \<and>
   lookupPattern (snd (applyQuantumDrift (snd (solve new_engine (tspProblem 20) t0 t1)) sp
                         (tspProblem 21))) (tspProblem 21) = None \<and>
   fst (extractPatterns (snd (applyQuantumDrift (snd (solve new_engine (tspProblem 20) t0 t1)) sp
                         (tspProblem 21))) sp' (tspProblem 21)) =
     computePatterns (snd (applyQuantumDrift (snd (solve new_engine (tspProblem 20) t0 t1)) sp
                         (tspProblem 21))) sp' \<and>
   lookupPattern (snd (applyQuantumDrift (snd (solve new_engine coloringProblem t0 t1)) sp
                         coloringProblem)) coloringProblem = None"
proof -
  let ?st = "snd (applyQuantumDrift (snd (solve new_engine (tspProblem 20) t0 t1)) sp (tspProblem 21))"
  have a: "ptype (tspProblem 20) = ptype (tspProblem 21)" by (simp add: tspProblem_def)
  have b: "\<bar>real_of_int (psize (tspProblem 20)) - real_of_int (psize (tspProblem 21))\<bar>
      / real_of_int (psize (tspProblem 21)) < 0.2" by (simp add: tspProblem_def)
  have "generateProblemKey (tspProblem 21) \<noteq> generateProblemKey (tspProblem 20)"
    by (simp add: key_tsp20 key_tsp21)
  then have "patternCache (snd (solve new_engine (tspProblem 20) t0 t1)) (generateProblemKey (tspProblem 21))
      = patternCache new_engine (generateProblemKey (tspProblem 21))"
    by (rule solve_cache_other)
  then have c: "lookupPattern ?st (tspProblem 21) = None"
    by (simp add: lookupPattern_def new_engine_def)
  have d: "fst (extractPatterns ?st sp' (tspProblem 21)) = computePatterns ?st sp'"
    by (simp add: lookup_miss_compute[OF c])
  have "ptype coloringProblem = ''graph-coloring''" by (simp add: coloringProblem_def blank_problem_def)
  then have e: "lookupPattern (snd (applyQuantumDrift (snd (solve new_engine coloringProblem t0 t1)) sp
                         coloringProblem)) coloringProblem = None"
    by (simp add: lookupPattern_def coloring_never_valid split: option.splits)
  from a b c d e show ?thesis by blast
qed

section \<open>The drift transformation and the vectors it is given\<close>

lemma f64_contents_F64 [simp]: "h ! a = F64 xs \<Longrightarrow> f64_contents h a = xs"
  by (simp add: f64_contents_def)

lemma arr_elems_Arr [simp]: "h ! a = Arr rs \<Longrightarrow> arr_elems h a = rs"
  by (simp add: arr_elems_def)

lemma driftVector_nth:
  "j < length xs \<Longrightarrow> driftVector ds p i xs ! j =
     js_clamp01 (js_add (xs ! j) (js_mul (js_mul (xs ! j) (Fin (calculateDriftFactor p i j))) (Fin ds)))"
  by (simp add: driftVector_def)

lemma driftInto_prefix:
  assumes a: "a < length h" and dv: "dv < length h" and ne: "a \<noteq> dv"
    and ha: "h ! a = F64 xs" and hd: "h ! dv = F64 ys" and len: "length ys = length xs"
  shows "k \<le> length xs \<Longrightarrow>
     foldl (\<lambda>h j.
              (let h1 = f64_write h dv j
                          (js_add (f64_read h a j)
                             (js_mul (js_mul (f64_read h a j) (Fin (calculateDriftFactor p i j)))
                                     (Fin ds)))
               in f64_write h1 dv j (js_clamp01 (f64_read h1 dv j))))
           h [0..<k]
     = h[dv := F64 (take k (driftVector ds p i xs) @ drop k ys)]"
proof (induction k)
  case 0
  then show ?case using hd list_update_id[of h dv] by simp
next
  case (Suc k)
  then have k: "k < length xs" by simp
  let ?h = "h[dv := F64 (take k (driftVector ds p i xs) @ drop k ys)]"
  let ?v = "js_add (xs ! k) (js_mul (js_mul (xs ! k) (Fin (calculateDriftFactor p i k))) (Fin ds))"
  have ra: "f64_read ?h a k = xs ! k"
    using a ne ha k by (simp add: f64_read_def f64_contents_def js_nth_def)
  have w1: "f64_write ?h dv k ?v = h[dv := F64 ((take k (driftVector ds p i xs) @ drop k ys)[k := ?v])]"
    using dv by (simp add: f64_write_def)
  have rd: "f64_read (f64_write ?h dv k ?v) dv k = ?v"
    unfolding w1 using dv k len by (simp add: f64_read_def f64_contents_def js_nth_def)
  have w2: "f64_write (f64_write ?h dv k ?v) dv k (js_clamp01 ?v) =
      h[dv := F64 ((take k (driftVector ds p i xs) @ drop k ys)[k := js_clamp01 ?v])]"
    unfolding w1 using dv by (simp add: f64_write_def)
  have "(take k (driftVector ds p i xs) @ drop k ys)[k := js_clamp01 ?v] =
      take (Suc k) (driftVector ds p i xs) @ drop (Suc k) ys"
  proof -
    have lt: "length (take k (driftVector ds p i xs)) = k" using k by simp
    have "drop k ys = ys ! k # drop (Suc k) ys" using k len by (simp add: Cons_nth_drop_Suc)
    then have "(take k (driftVector ds p i xs) @ drop k ys)[k := js_clamp01 ?v]
        = take k (driftVector ds p i xs) @ js_clamp01 ?v # drop (Suc k) ys"
      using lt by (simp add: list_update_append)
    moreover have "take (Suc k) (driftVector ds p i xs) = take k (driftVector ds p i xs) @ [js_clamp01 ?v]"
      using k by (simp add: take_Suc_conv_app_nth driftVector_nth)
    ultimately show ?thesis by simp
  qed
  with w2 have "f64_write (f64_write ?h dv k ?v) dv k (js_clamp01 ?v) =
      h[dv := F64 (take (Suc k) (driftVector ds p i xs) @ drop (Suc k) ys)]" by simp
  then show ?case using Suc.IH k ra rd by (simp add: Let_def)
qed

lemma driftInto_eq:
  assumes "a < length h" "dv < length h" "a \<noteq> dv" "h ! a = F64 xs" "h ! dv = F64 ys"
    "length ys = length xs"
  shows "driftInto h ds p i a dv = h[dv := F64 (driftVector ds p i xs)]"
  using driftInto_prefix[OF assms, of "length xs" p i ds] assms
  by (simp add: driftInto_def)

lemma driftStep_eq:
  assumes vs: "vs < length h" and hv: "h ! vs = Arr rs" and a: "rs ! i < length h"
    and ha: "h ! (rs ! i) = F64 xs"
  shows "driftStep p vs (st, h) i =
     (pushToTickStack st (driftVector (driftState st) p i xs),
      (h @ [F64 (driftVector (driftState st) p i xs)])[vs := Arr (rs[i := length h])])"
proof -
  let ?h1 = "h @ [F64 (replicate (length xs) (Fin 0))]"
  have d: "driftInto ?h1 (driftState st) p i (rs ! i) (length h) =
      ?h1[length h := F64 (driftVector (driftState st) p i xs)]"
    using a ha by (intro driftInto_eq[where ys = "replicate (length xs) (Fin 0)"])
                  (simp_all add: nth_append)
  have e: "?h1[length h := F64 (driftVector (driftState st) p i xs)] =
      h @ [F64 (driftVector (driftState st) p i xs)]" by simp
  show ?thesis
    using vs hv a ha d e
    by (simp add: driftStep_def alloc_def Let_def arr_write_def nth_append f64_contents_def
        arr_elems_def)
qed

lemma drift_loop:
  assumes wf: "list_all (\<lambda>a. a < length h \<and> is_f64 (h ! a)) rs"
  shows "k \<le> length rs \<Longrightarrow>
    foldl (driftStep p (length h)) (st, h @ [Arr rs]) [0..<k] =
      (foldl pushToTickStack st (map (driftedAt (driftState st) p h rs) [0..<k]),
       heapAfter (driftState st) p h rs k)"
proof (induction k)
  case 0
  then show ?case by (simp add: heapAfter_def list_update_same_conv)
next
  case (Suc k)
  then have k: "k < length rs" by simp
  let ?ds = "driftState st"
  let ?S = "foldl pushToTickStack st (map (driftedAt ?ds p h rs) [0..<k])"
  let ?H = "heapAfter ?ds p h rs k"
  let ?rs = "map (\<lambda>i. Suc (length h) + i) [0..<k] @ drop k rs"
  from wf k have ak: "rs ! k < length h" and fk: "is_f64 (h ! (rs ! k))"
    by (simp_all add: list_all_length)
  then obtain xs where xs: "h ! (rs ! k) = F64 xs" by (cases "h ! (rs ! k)") (simp_all add: is_f64_def)
  have lH: "length ?H = Suc (length h) + k" by (simp add: heapAfter_def)
  have v: "length h < length ?H" using lH by simp
  have Hv: "?H ! length h = Arr ?rs" by (simp add: heapAfter_def)
  have rk: "?rs ! k = rs ! k" using k by (simp add: nth_append)
  have Ha: "?H ! (rs ! k) = F64 xs" using ak xs by (simp add: heapAfter_def nth_append)
  have dS: "driftState ?S = ?ds" by simp
  have step: "driftStep p (length h) (?S, ?H) k =
     (pushToTickStack ?S (driftVector ?ds p k xs),
      (?H @ [F64 (driftVector ?ds p k xs)])[length h := Arr (?rs[k := length ?H])])"
    using driftStep_eq[OF v Hv, of k xs p ?S] ak rk Ha lH dS by simp
  have D: "driftedAt ?ds p h rs k = driftVector ?ds p k xs"
    using xs by (simp add: driftedAt_def)
  have rs': "?rs[k := length ?H] = map (\<lambda>i. Suc (length h) + i) [0..<Suc k] @ drop (Suc k) rs"
  proof -
    have "drop k rs = rs ! k # drop (Suc k) rs" using k by (simp add: Cons_nth_drop_Suc)
    then show ?thesis using lH by (simp add: list_update_append)
  qed
  have H': "(?H @ [F64 (driftVector ?ds p k xs)])[length h := Arr (?rs[k := length ?H])] =
      heapAfter ?ds p h rs (Suc k)"
    unfolding rs' by (simp add: heapAfter_def D list_update_append)
  have "foldl (driftStep p (length h)) (st, h @ [Arr rs]) [0..<Suc k] =
      driftStep p (length h) (?S, ?H) k" using Suc.IH k by simp
  also have "\<dots> = (pushToTickStack ?S (driftVector ?ds p k xs), heapAfter ?ds p h rs (Suc k))"
    using step H' by simp
  also have "pushToTickStack ?S (driftVector ?ds p k xs) =
      foldl pushToTickStack st (map (driftedAt ?ds p h rs) [0..<Suc k])"
    by (simp add: D)
  finally show ?case .
qed

lemma drift_store_eq:
  assumes wf: "wf_space h sp"
  shows "applyQuantumDrift_store st h sp p =
    (let rs = arr_elems h (rvectors sp);
         st2 = st\<lparr>cycleCount := cycleCount st + 1,
                  driftState := sin (real (cycleCount st + 1) * PHI) * 0.1\<rparr>
     in (sp\<lparr>rvectors := length h\<rparr>,
         foldl pushToTickStack st2 (map (driftedAt (driftState st2) p h rs) [0..<length rs]),
         heapAfter (driftState st2) p h rs (length rs)))"
proof -
  let ?rs = "arr_elems h (rvectors sp)"
  from wf have "list_all (\<lambda>a. a < length h \<and> is_f64 (h ! a)) ?rs" by (simp add: wf_space_def)
  from drift_loop[OF this, of "length ?rs" p]
  show ?thesis
    by (simp add: applyQuantumDrift_store_def alloc_def Let_def arr_elems_def[of "h @ _"])
qed

lemma heapAfter_frame: "a < length h \<Longrightarrow> heapAfter ds p h rs k ! a = h ! a"
  by (simp add: heapAfter_def nth_append)

lemma heapAfter_length: "length (heapAfter ds p h rs k) = Suc (length h) + k"
  by (simp add: heapAfter_def)

lemma heapAfter_arr:
  "arr_elems (heapAfter ds p h rs (length rs)) (length h) = map (\<lambda>i. Suc (length h) + i) [0..<length rs]"
  by (simp add: heapAfter_def arr_elems_def)

lemma heapAfter_new:
  "i < k \<Longrightarrow> heapAfter ds p h rs k ! Suc (length h + i) = F64 (driftedAt ds p h rs i)"
  by (simp add: heapAfter_def nth_append)

lemma driftVectors_map:
  "fst (driftVectors p 0 xss st) = map (\<lambda>i. driftVector (driftState st) p i (xss ! i)) [0..<length xss]"
proof -
  have "map (\<lambda>(k, v). driftVector (driftState st) p k v) (zip [0..<length xss] xss) =
        map (\<lambda>i. driftVector (driftState st) p i (xss ! i)) [0..<length xss]"
    by (rule nth_equalityI) simp_all
  then show ?thesis using driftVectors_fst[of p 0 xss st] by simp
qed

text \<open>
  C9: the drift transformation changes no object that existed before the call, so every
  input vector keeps its entries and the input array keeps its elements. The array it returns
  and the vectors in it are new objects; they hold the drifted values, and the history is
  updated, exactly as the value-level \<open>applyQuantumDrift\<close> says.
\<close>

theorem drift_keeps_inputs:
  "wf_space h sp \<longrightarrow>
     (case applyQuantumDrift_store st h sp p of
        (sp', st', h') \<Rightarrow>
          length h \<le> length h' \<and>
          take (length h) h' = h \<and>
          (a < length h \<longrightarrow> h' ! a = h ! a) \<and>
          length h \<le> rvectors sp' \<and>
          list_all (\<lambda>r. length h < r) (arr_elems h' (rvectors sp')) \<and>
          space_of h' sp' = fst (applyQuantumDrift st (space_of h sp) p) \<and>
          st' = snd (applyQuantumDrift st (space_of h sp) p) \<and>
          space_of h' sp = space_of h sp)"
proof
  assume wf: "wf_space h sp"
  let ?rs = "arr_elems h (rvectors sp)"
  let ?st2 = "st\<lparr>cycleCount := cycleCount st + 1,
                  driftState := sin (real (cycleCount st + 1) * PHI) * 0.1\<rparr>"
  let ?ds = "driftState ?st2"
  let ?h' = "heapAfter ?ds p h ?rs (length ?rs)"
  let ?D = "map (driftedAt ?ds p h ?rs) [0..<length ?rs]"
  have eq: "applyQuantumDrift_store st h sp p =
      (sp\<lparr>rvectors := length h\<rparr>, foldl pushToTickStack ?st2 ?D, ?h')"
    using drift_store_eq[OF wf, of st p] by (simp add: Let_def)
  have f1: "length h \<le> length ?h'" by (simp add: heapAfter_length)
  have f2: "take (length h) ?h' = h"
    by (rule nth_equalityI) (simp_all add: heapAfter_length heapAfter_frame)
  have f3: "a < length h \<longrightarrow> ?h' ! a = h ! a" by (simp add: heapAfter_frame)
  have f5: "list_all (\<lambda>r. length h < r) (arr_elems ?h' (length h))"
    by (simp add: heapAfter_arr list_all_iff)
  have vecs: "map (f64_contents ?h') (arr_elems ?h' (length h)) = ?D"
    by (rule nth_equalityI) (simp_all add: heapAfter_arr heapAfter_new f64_contents_def)
  have pure: "vectors (fst (applyQuantumDrift st (space_of h sp) p)) = ?D"
    by (simp add: drift_fst driftVectors_map space_of_def driftedAt_def)
  have f6: "space_of ?h' (sp\<lparr>rvectors := length h\<rparr>) = fst (applyQuantumDrift st (space_of h sp) p)"
    using vecs pure by (simp add: space_of_def applyQuantumDrift_def Let_def split_beta)
  have f7: "foldl pushToTickStack ?st2 ?D = snd (applyQuantumDrift st (space_of h sp) p)"
    using pure by (simp add: drift_snd)
  from wf have rv: "rvectors sp < length h"
    and el: "list_all (\<lambda>a. a < length h \<and> is_f64 (h ! a)) ?rs" by (simp_all add: wf_space_def)
  have ar: "arr_elems ?h' (rvectors sp) = ?rs" using rv by (simp add: arr_elems_def heapAfter_frame)
  have "map (f64_contents ?h') ?rs = map (f64_contents h) ?rs"
    using el by (auto simp: list_all_iff f64_contents_def heapAfter_frame)
  then have f8: "space_of ?h' sp = space_of h sp" using ar by (simp add: space_of_def)
  show "case applyQuantumDrift_store st h sp p of
        (sp', st', h') \<Rightarrow>
          length h \<le> length h' \<and>
          take (length h) h' = h \<and>
          (a < length h \<longrightarrow> h' ! a = h ! a) \<and>
          length h \<le> rvectors sp' \<and>
          list_all (\<lambda>r. length h < r) (arr_elems h' (rvectors sp')) \<and>
          space_of h' sp' = fst (applyQuantumDrift st (space_of h sp) p) \<and>
          st' = snd (applyQuantumDrift st (space_of h sp) p) \<and>
          space_of h' sp = space_of h sp"
    unfolding eq using f1 f2 f3 f5 f6 f7 f8 by simp
qed

theorem drift_keeps_inputs_witness:
  "wf_space example_store example_space_ref \<and>
   take (length example_store)
     (snd (snd (applyQuantumDrift_store new_engine example_store example_space_ref
                  (blank_problem\<lparr>psize := 4\<rparr>)))) = example_store \<and>
   space_of (snd (snd (applyQuantumDrift_store new_engine example_store example_space_ref
                  (blank_problem\<lparr>psize := 4\<rparr>)))) example_space_ref =
     \<lparr>sdimensions = 11, ssize = 4, sconstraints = [],
        vectors = [[Fin (1 / 2), Fin (1 / 4)], [Fin (1 / 8), Fin 1]]\<rparr>"
proof -
  have wf: "wf_space example_store example_space_ref"
    by (simp add: wf_space_def example_store_def example_space_ref_def arr_elems_def is_f64_def)
  have sp: "space_of example_store example_space_ref =
     \<lparr>sdimensions = 11, ssize = 4, sconstraints = [],
        vectors = [[Fin (1 / 2), Fin (1 / 4)], [Fin (1 / 8), Fin 1]]\<rparr>"
    by (simp add: space_of_def example_store_def example_space_ref_def arr_elems_def f64_contents_def)
  from drift_keeps_inputs[where h = example_store and sp = example_space_ref and st = new_engine
         and p = "blank_problem\<lparr>psize := 4\<rparr>" and a = 0] wf sp
  show ?thesis by (auto simp: split_beta)
qed

end
